theory Spec2Isabelle
  imports Main "HOL-Library.AList"
begin

section \<open>Python values, exceptions and string conversion\<close>

text \<open>
  The handler of \<^verbatim>\<open>eslogging/handlers.py\<close> moves attribute values of log records into
  dictionaries. The values modelled are \<^verbatim>\<open>None\<close>, booleans, integers, strings and tuples
  of these; on them \<^verbatim>\<open>str\<close> and iteration are exactly Python's. A dictionary is an
  association list in insertion order, assigned to with \<^const>\<open>AList.update\<close> (an existing
  key keeps its place, a new key goes to the end) and read with \<^const>\<open>map_of\<close>.
\<close>

datatype pyatom = ANone | ABool bool | AInt int | AStr string

datatype pyval = Atom pyatom | Tuple "pyatom list"

type_synonym pydict = "(string \<times> pyval) list"

text \<open>Exceptions: the built-in ones the code can meet, and whatever the bulk call raises.\<close>

datatype error =
    TypeError
  | ValueError
  | OverflowError
  | OSError "int option"
  | AttributeError
  | BulkError string

definition digit_char :: "nat \<Rightarrow> char" where
  "digit_char d = ''0123456789'' ! (d mod 10)"

fun str_nat :: "nat \<Rightarrow> string" where
  "str_nat n = (if n < 10 then [digit_char n] else str_nat (n div 10) @ [digit_char (n mod 10)])"

declare str_nat.simps [simp del]

definition str_int :: "int \<Rightarrow> string" where
  "str_int i = (if i < 0 then CHR ''-'' # str_nat (nat (- i)) else str_nat (nat i))"

text \<open>\<^verbatim>\<open>str(arg)\<close> on the modelled values.\<close>

fun py_str :: "pyatom \<Rightarrow> string" where
  "py_str ANone = ''None''"
| "py_str (ABool b) = (if b then ''True'' else ''False'')"
| "py_str (AInt i) = str_int i"
| "py_str (AStr s) = s"

text \<open>
  \<^verbatim>\<open>for arg in value\<close>: a tuple yields its elements, a string its characters, and
  \<^verbatim>\<open>None\<close>, a boolean or an integer raises \<^verbatim>\<open>TypeError\<close> (not iterable).
\<close>

fun py_iter :: "pyval \<Rightarrow> error + pyatom list" where
  "py_iter (Tuple xs) = Inr xs"
| "py_iter (Atom (AStr s)) = Inr (map (\<lambda>c. AStr [c]) s)"
| "py_iter (Atom ANone) = Inl TypeError"
| "py_iter (Atom (ABool b)) = Inl TypeError"
| "py_iter (Atom (AInt i)) = Inl TypeError"

text \<open>Zero padding on the left up to a minimal width, as \<^verbatim>\<open>{:03d}\<close> and \<^verbatim>\<open>%m\<close> do.\<close>

definition zfill :: "nat \<Rightarrow> string \<Rightarrow> string" where
  "zfill w s = replicate (w - length s) (CHR ''0'') @ s"

section \<open>Dates: the part of \<^verbatim>\<open>datetime\<close> the handler uses\<close>

text \<open>
  A \<^verbatim>\<open>datetime\<close> is kept as its proleptic Gregorian ordinal (day 1 is 0001-01-01, what
  \<^verbatim>\<open>toordinal()\<close> returns) and its time of day. Year, month and day are read from the
  ordinal by the standard library's \<^verbatim>\<open>_ord2ymd\<close>, transcribed below in two parts. Valid ordinals are
  1 .. 3652059 (years 1 to 9999).
\<close>

record datetime =
  ordinal :: int
  hour :: int
  minute :: int
  second :: int
  microsecond :: int

definition max_ordinal :: int where
  "max_ordinal = 3652059"

definition DAYS_IN_MONTH :: "int list" where
  "DAYS_IN_MONTH = [-1, 31, 28, 31, 30, 31, 30, 31, 31, 30, 31, 30, 31]"

definition DAYS_BEFORE_MONTH :: "int list" where
  "DAYS_BEFORE_MONTH = [-1, 0, 31, 59, 90, 120, 151, 181, 212, 243, 273, 304, 334]"

text \<open>The tail of \<^verbatim>\<open>_ord2ymd\<close>: month and day from the day of the year, counted from 0.\<close>

definition month_day :: "int \<Rightarrow> bool \<Rightarrow> int \<times> int" where
  "month_day nd leapyear =
    (let month = (nd + 50) div 32;
         preceding = DAYS_BEFORE_MONTH ! nat month + (if month > 2 \<and> leapyear then 1 else 0)
     in if preceding > nd
        then let month' = month - 1;
                 preceding' = preceding - (DAYS_IN_MONTH ! nat month'
                                + (if month' = 2 \<and> leapyear then 1 else 0))
             in (month', nd - preceding' + 1)
        else (month, nd - preceding + 1))"

definition ord2ymd :: "int \<Rightarrow> int \<times> int \<times> int" where
  "ord2ymd n0 =
    (let n = n0 - 1;
         n400 = n div 146097; na = n mod 146097;
         n100 = na div 36524; nb = na mod 36524;
         n4 = nb div 1461; nc = nb mod 1461;
         n1 = nc div 365; nd = nc mod 365;
         year = n400 * 400 + 1 + n100 * 100 + n4 * 4 + n1
     in if n1 = 4 \<or> n100 = 4 then (year - 1, 12, 31)
        else
          let leapyear = (n1 = 3 \<and> (n4 \<noteq> 24 \<or> n100 = 3))
          in (year, month_day nd leapyear))"

definition dt_year :: "datetime \<Rightarrow> int" where
  "dt_year dt = fst (ord2ymd (ordinal dt))"

definition dt_month :: "datetime \<Rightarrow> int" where
  "dt_month dt = fst (snd (ord2ymd (ordinal dt)))"

definition dt_day :: "datetime \<Rightarrow> int" where
  "dt_day dt = snd (snd (ord2ymd (ordinal dt)))"

text \<open>\<^verbatim>\<open>weekday()\<close>: Monday is 0, Sunday is 6.\<close>

definition weekday :: "datetime \<Rightarrow> int" where
  "weekday dt = (ordinal dt + 6) mod 7"

text \<open>
  \<^verbatim>\<open>dt - timedelta(days=k)\<close>: the time of day stays, the ordinal moves, and a result
  outside the valid ordinals raises \<^verbatim>\<open>OverflowError\<close>.
\<close>

definition sub_days :: "datetime \<Rightarrow> int \<Rightarrow> error + datetime" where
  "sub_days dt k =
    (let n = ordinal dt - k
     in if 1 \<le> n \<and> n \<le> max_ordinal then Inr (dt\<lparr>ordinal := n\<rparr>) else Inl OverflowError)"

text \<open>
  \<^verbatim>\<open>strftime\<close> directives, as the Python documentation gives them: \<^verbatim>\<open>%Y\<close> the year in
  four digits, \<^verbatim>\<open>%m %d %H %M %S\<close> in two digits, all zero padded.
\<close>

definition fmt_Y :: "datetime \<Rightarrow> string" where
  "fmt_Y dt = zfill 4 (str_nat (nat (dt_year dt)))"

definition fmt_m :: "datetime \<Rightarrow> string" where
  "fmt_m dt = zfill 2 (str_nat (nat (dt_month dt)))"

definition fmt_d :: "datetime \<Rightarrow> string" where
  "fmt_d dt = zfill 2 (str_nat (nat (dt_day dt)))"

definition fmt_H :: "datetime \<Rightarrow> string" where
  "fmt_H dt = zfill 2 (str_nat (nat (hour dt)))"

definition fmt_M :: "datetime \<Rightarrow> string" where
  "fmt_M dt = zfill 2 (str_nat (nat (minute dt)))"

definition fmt_S :: "datetime \<Rightarrow> string" where
  "fmt_S dt = zfill 2 (str_nat (nat (second dt)))"

text \<open>
  \<^verbatim>\<open>datetime.utcfromtimestamp\<close>. The timestamp is a float of seconds; the library rounds
  it to whole microseconds first, and the model starts there: its argument is the
  timestamp in microseconds since the epoch (ordinal 719163 is 1970-01-01). A date outside
  the years 1 .. 9999 raises \<^verbatim>\<open>ValueError\<close>.
\<close>

definition utcfromtimestamp :: "int \<Rightarrow> error + datetime" where
  "utcfromtimestamp us =
    (let days = us div 86400000000;
         r = us mod 86400000000;
         n = 719163 + days
     in if 1 \<le> n \<and> n \<le> max_ordinal
        then Inr \<lparr>ordinal = n,
                  hour = r div 3600000000,
                  minute = (r div 60000000) mod 60,
                  second = (r div 1000000) mod 60,
                  microsecond = r mod 1000000\<rparr>
        else Inl ValueError)"

section \<open>Index names\<close>

datatype IndexNameFrequency = NO_FREQ | DAILY | WEEKLY | MONTHLY | YEARLY

text \<open>
  Each naming function reads the clock (\<^verbatim>\<open>datetime.datetime.now()\<close>); the reading is the
  argument \<open>now\<close>.
\<close>

definition get_daily_index_name :: "string \<Rightarrow> datetime \<Rightarrow> string" where
  "get_daily_index_name es_index_name now =
     es_index_name @ ''-'' @ (fmt_Y now @ ''.'' @ fmt_m now @ ''.'' @ fmt_d now)"

definition get_weekly_index_name :: "string \<Rightarrow> datetime \<Rightarrow> error + string" where
  "get_weekly_index_name es_index_name now =
    (let current_date = now
     in case sub_days current_date (weekday current_date) of
          Inl e \<Rightarrow> Inl e
        | Inr start_of_the_week \<Rightarrow>
            Inr (es_index_name @ ''-'' @
                 (fmt_Y start_of_the_week @ ''.'' @ fmt_m start_of_the_week @ ''.''
                  @ fmt_d start_of_the_week)))"

definition get_monthly_index_name :: "string \<Rightarrow> datetime \<Rightarrow> string" where
  "get_monthly_index_name es_index_name now =
     es_index_name @ ''-'' @ (fmt_Y now @ ''.'' @ fmt_m now)"

definition get_unchanged_index_name :: "string \<Rightarrow> string" where
  "get_unchanged_index_name es_index_name = es_index_name"

definition get_yearly_index_name :: "string \<Rightarrow> datetime \<Rightarrow> string" where
  "get_yearly_index_name es_index_name now = es_index_name @ ''-'' @ fmt_Y now"

text \<open>\<^verbatim>\<open>_INDEX_FREQUENCY_FUNCION_DICT\<close>, applied.\<close>

fun INDEX_FREQUENCY_FUNCION_DICT ::
  "IndexNameFrequency \<Rightarrow> string \<Rightarrow> datetime \<Rightarrow> error + string" where
  "INDEX_FREQUENCY_FUNCION_DICT NO_FREQ name now = Inr (get_unchanged_index_name name)"
| "INDEX_FREQUENCY_FUNCION_DICT DAILY name now = Inr (get_daily_index_name name now)"
| "INDEX_FREQUENCY_FUNCION_DICT WEEKLY name now = get_weekly_index_name name now"
| "INDEX_FREQUENCY_FUNCION_DICT MONTHLY name now = Inr (get_monthly_index_name name now)"
| "INDEX_FREQUENCY_FUNCION_DICT YEARLY name now = Inr (get_yearly_index_name name now)"

section \<open>The handler\<close>

text \<open>
  One bulk action, the dictionary with keys \<^verbatim>\<open>_index\<close>, \<^verbatim>\<open>_type\<close> and \<^verbatim>\<open>_source\<close>.
\<close>

record action =
  a_index :: string
  a_type :: string
  a_source :: pydict

text \<open>
  What the handler does to the world is written to a log of calls: entering \<^verbatim>\<open>flush\<close>,
  entering \<^verbatim>\<open>_schedule_flush\<close>, the call of \<^verbatim>\<open>eshelpers.bulk\<close> with its actions,
  starting and cancelling a timer, and \<^verbatim>\<open>traceback.print_exc\<close> on the error stream.
\<close>

datatype call =
    Flush_called
  | Schedule_flush_called
  | Bulk_called "action list"
  | Timer_started nat
  | Timer_cancelled nat
  | Exc_printed error

text \<open>
  The fields of \<^verbatim>\<open>ESHandler\<close> that the buffering and flushing code reads or writes.
  A timer object is a number; \<open>live_timers\<close> are the timers that were started and have
  neither been cancelled nor finished, \<open>timers_created\<close> numbers the next one. The lock
  does not appear: the model runs one call at a time.
\<close>

record handler =
  buffer_size :: int
  es_index_name :: string
  index_name_frequency :: IndexNameFrequency
  es_doc_type :: string
  es_additional_fields :: pydict
  raise_on_indexing_exceptions :: bool
  default_timestamp_field_name :: string
  timed_flush :: bool
  buffer :: "pydict list"
  timer :: "nat option"
  live_timers :: "nat list"
  timers_created :: nat
  calls :: "call list"

text \<open>
  What a call meets outside the handler: whether the bulk transmission (client
  construction included) raises, and the clock readings, one for each action built.
\<close>

record env =
  bulk_raises :: "error option"
  clock :: "nat \<Rightarrow> datetime"

text \<open>A log record: its \<^verbatim>\<open>__dict__\<close>, and \<^verbatim>\<open>record.created\<close> in microseconds.\<close>

record LogRecord =
  attrs :: pydict
  created :: int

definition LOGGING_FILTER_FIELDS :: "string list" where
  "LOGGING_FILTER_FIELDS = [''msecs'', ''relativeCreated'', ''levelno'', ''created'']"

definition schedule_flush :: "handler \<Rightarrow> handler" where
  "schedule_flush h0 =
    (let h = h0\<lparr>calls := calls h0 @ [Schedule_flush_called]\<rparr>
     in case timer h of
          None \<Rightarrow>
            (let t = timers_created h
             in h\<lparr>timer := Some t,
                  live_timers := live_timers h @ [t],
                  timers_created := Suc t,
                  calls := calls h @ [Timer_started t]\<rparr>)
        | Some t \<Rightarrow> h)"

text \<open>
  \<^verbatim>\<open>"{0!s}.{1:03d}Z".format(strftime('%Y-%m-%dT%H:%M:%S'), int(microsecond / 1000))\<close>;
  the float quotient of a microsecond count below one million, truncated, is its
  integer quotient.
\<close>

definition get_es_datetime_str :: "int \<Rightarrow> error + string" where
  "get_es_datetime_str timestamp =
    (case utcfromtimestamp timestamp of
       Inl e \<Rightarrow> Inl e
     | Inr current_date \<Rightarrow>
         Inr ((fmt_Y current_date @ ''-'' @ fmt_m current_date @ ''-'' @ fmt_d current_date
               @ ''T'' @ fmt_H current_date @ '':'' @ fmt_M current_date @ '':''
               @ fmt_S current_date)
              @ ''.'' @ zfill 3 (str_nat (nat (microsecond current_date div 1000))) @ ''Z''))"

text \<open>The generator of actions inside \<^verbatim>\<open>flush\<close>: one action for each buffered entry.\<close>

fun make_actions :: "handler \<Rightarrow> (nat \<Rightarrow> datetime) \<Rightarrow> nat \<Rightarrow> pydict list \<Rightarrow> error + action list" where
  "make_actions h clk i [] = Inr []"
| "make_actions h clk i (log_record # logs_buffer) =
    (case INDEX_FREQUENCY_FUNCION_DICT (index_name_frequency h) (es_index_name h) (clk i) of
       Inl e \<Rightarrow> Inl e
     | Inr idx \<Rightarrow>
         (case make_actions h clk (Suc i) logs_buffer of
            Inl e \<Rightarrow> Inl e
          | Inr acts \<Rightarrow>
              Inr (\<lparr>a_index = idx, a_type = es_doc_type h, a_source = log_record\<rparr> # acts)))"

text \<open>
  The body of the \<^verbatim>\<open>try\<close> up to and including the bulk call: \<open>Some e\<close> when it raises
  \<open>e\<close>, \<open>None\<close> when it returns.
\<close>

definition bulk :: "env \<Rightarrow> handler \<Rightarrow> error option \<times> handler" where
  "bulk ev h =
    (case make_actions h (clock ev) 0 (buffer h) of
       Inl e \<Rightarrow> (Some e, h)
     | Inr actions \<Rightarrow> (bulk_raises ev, h\<lparr>calls := calls h @ [Bulk_called actions]\<rparr>))"

text \<open>
  The first lines of \<^verbatim>\<open>flush\<close>: a timer that is held and alive is cancelled, and the
  handle is set to \<^verbatim>\<open>None\<close> in every case.
\<close>

definition cancel_timer :: "handler \<Rightarrow> handler" where
  "cancel_timer h =
    (case timer h of
       None \<Rightarrow> h
     | Some t \<Rightarrow>
         if t \<in> set (live_timers h)
         then h\<lparr>live_timers := removeAll t (live_timers h),
                calls := calls h @ [Timer_cancelled t]\<rparr>
         else h)\<lparr>timer := None\<rparr>"

text \<open>A call returns \<open>(None, h')\<close>, or \<open>(Some e, h')\<close> when it raises \<open>e\<close>.\<close>

definition flush :: "env \<Rightarrow> handler \<Rightarrow> error option \<times> handler" where
  "flush ev h0 =
    (let h3 = cancel_timer (h0\<lparr>calls := calls h0 @ [Flush_called]\<rparr>)
     in if buffer h3 \<noteq> []
        then (case bulk ev h3 of
                (None, h4) \<Rightarrow> (None, h4\<lparr>buffer := []\<rparr>)
              | (Some exception, h4) \<Rightarrow>
                  if raise_on_indexing_exceptions h4
                  then (Some exception, h4)
                  else (None, schedule_flush (h4\<lparr>calls := calls h4 @ [Exc_printed exception]\<rparr>)))
        else (None, h3))"

definition close :: "env \<Rightarrow> handler \<Rightarrow> error option \<times> handler" where
  "close ev h =
    (case timer h of
       Some t \<Rightarrow>
         (case flush ev h of
            (Some e, h') \<Rightarrow> (Some e, h')
          | (None, h') \<Rightarrow> (None, h'\<lparr>timer := None\<rparr>))
     | None \<Rightarrow> (None, h\<lparr>timer := None\<rparr>))"

definition try_flush :: "env \<Rightarrow> handler \<Rightarrow> error option \<times> handler" where
  "try_flush ev h =
    (if int (length (buffer h)) \<ge> buffer_size h \<and> \<not> timed_flush h
     then flush ev h
     else (None, schedule_flush h))"

text \<open>One round of the loop over \<^verbatim>\<open>record.__dict__.items()\<close> in \<^verbatim>\<open>emit\<close>.\<close>

definition copy_attr :: "pydict \<Rightarrow> string \<times> pyval \<Rightarrow> error + pydict" where
  "copy_attr rec kv =
    (let key = fst kv; val = snd kv
     in if key \<notin> set LOGGING_FILTER_FIELDS
        then (case (if key = ''args''
                    then (case py_iter val of
                            Inl e \<Rightarrow> Inl e
                          | Inr xs \<Rightarrow> Inr (Tuple (map (\<lambda>arg. AStr (py_str arg)) xs)))
                    else Inr val) of
                Inl e \<Rightarrow> Inl e
              | Inr v \<Rightarrow> Inr (AList.update key (if v = Atom ANone then Atom (AStr []) else v) rec))
        else Inr rec)"

fun copy_attrs :: "pydict \<Rightarrow> pydict \<Rightarrow> error + pydict" where
  "copy_attrs rec [] = Inr rec"
| "copy_attrs rec (kv # kvs) =
    (case copy_attr rec kv of
       Inl e \<Rightarrow> Inl e
     | Inr rec' \<Rightarrow> copy_attrs rec' kvs)"

text \<open>The entry \<^verbatim>\<open>rec\<close> that \<^verbatim>\<open>emit\<close> builds before it takes the lock.\<close>

definition emit_rec :: "handler \<Rightarrow> LogRecord \<Rightarrow> error + pydict" where
  "emit_rec h record =
    (case copy_attrs (es_additional_fields h) (attrs record) of
       Inl e \<Rightarrow> Inl e
     | Inr rec \<Rightarrow>
         (case get_es_datetime_str (created record) of
            Inl e \<Rightarrow> Inl e
          | Inr s \<Rightarrow> Inr (AList.update (default_timestamp_field_name h) (Atom (AStr s)) rec)))"

definition emit :: "env \<Rightarrow> LogRecord \<Rightarrow> handler \<Rightarrow> error option \<times> handler" where
  "emit ev record h =
    (case emit_rec h record of
       Inl e \<Rightarrow> (Some e, h)
     | Inr rec \<Rightarrow> try_flush ev (h\<lparr>buffer := buffer h @ [rec]\<rparr>))"

text \<open>
  A timer that fires runs \<^verbatim>\<open>flush\<close> in its own thread; an exception there ends the
  thread only. The thread is alive while \<^verbatim>\<open>flush\<close> runs and finished afterwards.
\<close>

definition fire :: "env \<Rightarrow> nat \<Rightarrow> handler \<Rightarrow> handler" where
  "fire ev t h =
    (if t \<in> set (live_timers h)
     then (let h' = snd (flush ev h) in h'\<lparr>live_timers := removeAll t (live_timers h')\<rparr>)
     else h)"

text \<open>What can happen to a handler, and a run of such events.\<close>

datatype event =
    Emit env LogRecord
  | Flush env
  | Close env
  | Fire env nat

fun step :: "handler \<Rightarrow> event \<Rightarrow> handler" where
  "step h (Emit ev r) = snd (emit ev r h)"
| "step h (Flush ev) = snd (flush ev h)"
| "step h (Close ev) = snd (close ev h)"
| "step h (Fire ev t) = fire ev t h"

definition run :: "handler \<Rightarrow> event list \<Rightarrow> handler" where
  "run h evs = foldl step h evs"

text \<open>The calls a step adds to the log.\<close>

definition new_calls :: "handler \<Rightarrow> handler \<Rightarrow> call list" where
  "new_calls h h' = drop (length (calls h)) (calls h')"

text \<open>
  A flush that catches the failure of its transmission: the buffer is not empty, the bulk
  call raises, and \<^verbatim>\<open>raise_on_indexing_exceptions\<close> is off.
\<close>

definition failure_swallowed :: "env \<Rightarrow> handler \<Rightarrow> bool" where
  "failure_swallowed ev h \<longleftrightarrow>
     buffer h \<noteq> [] \<and> fst (bulk ev h) \<noteq> None \<and> \<not> raise_on_indexing_exceptions h"



section \<open>Construction\<close>

text \<open>
  Dictionaries that the caller and the handler may share live in a store, addressed by
  their position; \<^verbatim>\<open>{}\<close> and \<^verbatim>\<open>d.copy()\<close> allocate a new object at the end, and
  \<^verbatim>\<open>d.update(...)\<close> writes the object at its address.
\<close>

type_synonym store = "pydict list"

definition dict_new :: "store \<Rightarrow> nat \<times> store" where
  "dict_new st = (length st, st @ [[]])"

definition dict_copy :: "store \<Rightarrow> nat \<Rightarrow> nat \<times> store" where
  "dict_copy st a = (length st, st @ [st ! a])"

definition dict_update :: "store \<Rightarrow> nat \<Rightarrow> pydict \<Rightarrow> store" where
  "dict_update st a other = st[a := foldl (\<lambda>d kv. AList.update (fst kv) (snd kv) d) (st ! a) other]"

text \<open>What the constructor asks the system: host name, platform, and name resolution.\<close>

record init_env =
  gethostname :: string
  platform_system :: string
  gethostbyname :: "string \<Rightarrow> error + string"

text \<open>
  The constructor's parameters that the modelled fields come from;
  \<open>p_es_additional_fields\<close> is \<^verbatim>\<open>None\<close> or the address of the caller's dictionary.
\<close>

record init_args =
  p_buffer_size :: int
  p_es_index_name :: string
  p_index_name_frequency :: IndexNameFrequency
  p_es_doc_type :: string
  p_es_additional_fields :: "nat option"
  p_raise_on_indexing_exceptions :: bool
  p_default_timestamp_field_name :: string
  p_timed_flush :: bool

definition default_args :: init_args where
  "default_args =
    \<lparr>p_buffer_size = 1000,
     p_es_index_name = ''python_logger'',
     p_index_name_frequency = DAILY,
     p_es_doc_type = ''python_log'',
     p_es_additional_fields = None,
     p_raise_on_indexing_exceptions = False,
     p_default_timestamp_field_name = ''timestamp'',
     p_timed_flush = False\<rparr>"

text \<open>
  \<^verbatim>\<open>err.errno\<close> in the handler of the failed name resolution: an \<^verbatim>\<open>OSError\<close> has the
  attribute, the other exceptions modelled do not.
\<close>

definition resolve_host_ip :: "init_env \<Rightarrow> string \<Rightarrow> error + string" where
  "resolve_host_ip ie host =
    (if platform_system ie \<noteq> ''Darwin''
     then (case gethostbyname ie host of
             Inr ip \<Rightarrow> Inr ip
           | Inl err \<Rightarrow>
               (case err of
                  OSError errno \<Rightarrow> if errno = Some 8 then Inr ''127.0.0.1'' else Inl err
                | _ \<Rightarrow> Inl AttributeError))
     else Inr ''127.0.0.1'')"

text \<open>
  \<^verbatim>\<open>__init__\<close>: the store it leaves, and either the exception it raises or the address
  of the handler's own dictionary with the handler, whose \<open>es_additional_fields\<close> is the
  content of that dictionary (nothing writes it after construction).
\<close>

definition init :: "init_env \<Rightarrow> store \<Rightarrow> init_args \<Rightarrow> store \<times> (error + nat \<times> handler)" where
  "init ie st args =
    (let (a, st1) = (case p_es_additional_fields args of
                       None \<Rightarrow> dict_new st
                     | Some p \<Rightarrow> dict_copy st p);
         host = gethostname ie
     in case resolve_host_ip ie host of
          Inl err \<Rightarrow> (st1, Inl err)
        | Inr host_ip \<Rightarrow>
            (let st2 = dict_update st1 a
                         [(''host'', Atom (AStr host)), (''host_ip'', Atom (AStr host_ip))]
             in (st2, Inr (a,
                     \<lparr>buffer_size = p_buffer_size args,
                      es_index_name = p_es_index_name args,
                      index_name_frequency = p_index_name_frequency args,
                      es_doc_type = p_es_doc_type args,
                      es_additional_fields = st2 ! a,
                      raise_on_indexing_exceptions = p_raise_on_indexing_exceptions args,
                      default_timestamp_field_name = p_default_timestamp_field_name args,
                      timed_flush = p_timed_flush args,
                      buffer = [],
                      timer = None,
                      live_timers = [],
                      timers_created = 0,
                      calls = []\<rparr>))))"

section \<open>The shape of a timestamp\<close>




section \<open>Concrete handlers, records and environments\<close>

text \<open>2023-11-14 22:13:20.123456, a Tuesday.\<close>

definition ex_now :: datetime where
  "ex_now = \<lparr>ordinal = 738838, hour = 22, minute = 13, second = 20, microsecond = 123456\<rparr>"

definition ex_env_ok :: env where
  "ex_env_ok = \<lparr>bulk_raises = None, clock = (\<lambda>i. ex_now)\<rparr>"

definition ex_env_down :: env where
  "ex_env_down = \<lparr>bulk_raises = Some (BulkError ''connection refused''), clock = (\<lambda>i. ex_now)\<rparr>"

text \<open>A handler as the constructor leaves it, with threshold 2.\<close>

definition ex_handler :: handler where
  "ex_handler =
    \<lparr>buffer_size = 2,
     es_index_name = ''python_logger'',
     index_name_frequency = DAILY,
     es_doc_type = ''python_log'',
     es_additional_fields =
       [(''App'', Atom (AStr ''Test'')), (''host'', Atom (AStr ''box'')),
        (''host_ip'', Atom (AStr ''10.0.0.7''))],
     raise_on_indexing_exceptions = False,
     default_timestamp_field_name = ''timestamp'',
     timed_flush = False,
     buffer = [],
     timer = None,
     live_timers = [],
     timers_created = 0,
     calls = []\<rparr>"

definition ex_entry :: pydict where
  "ex_entry = [(''msg'', Atom (AStr ''First Message'')),
               (''timestamp'', Atom (AStr ''2023-11-14T22:13:20.123Z''))]"

text \<open>The same handler holding one entry and an armed timer.\<close>

definition ex_loaded :: handler where
  "ex_loaded = ex_handler\<lparr>buffer := [ex_entry], timer := Some 0, live_timers := [0],
                           timers_created := 1\<rparr>"

text \<open>The loaded handler in fail-fast mode.\<close>

definition ex_fail_fast :: handler where
  "ex_fail_fast = ex_loaded\<lparr>raise_on_indexing_exceptions := True\<rparr>"

text \<open>The empty handler with the default threshold of 1000.\<close>

definition ex_default :: handler where
  "ex_default = ex_handler\<lparr>buffer_size := 1000\<rparr>"

definition ex_record :: LogRecord where
  "ex_record =
    \<lparr>attrs = [(''name'', Atom (AStr ''app'')),
              (''msg'', Atom (AStr ''code %s at %s'')),
              (''args'', Tuple [AInt 404, AStr ''index'']),
              (''levelname'', Atom (AStr ''WARNING'')),
              (''levelno'', Atom (AInt 30)),
              (''exc_info'', Atom ANone),
              (''created'', Atom (AInt 1700000000)),
              (''msecs'', Atom (AInt 123)),
              (''relativeCreated'', Atom (AInt 5)),
              (''Arg1'', Atom (AInt 300))],
     created = 1700000000123456\<rparr>"

text \<open>
  A record whose \<^verbatim>\<open>args\<close> is \<^verbatim>\<open>None\<close>, as \<^verbatim>\<open>logging.handlers.QueueHandler\<close>
  passes records on.
\<close>

definition ex_record_no_args :: LogRecord where
  "ex_record_no_args =
    \<lparr>attrs = [(''msg'', Atom (AStr ''ready'')), (''args'', Atom ANone)],
     created = 1700000000123456\<rparr>"

text \<open>The entry that \<^verbatim>\<open>emit\<close> builds from \<open>ex_record\<close> in \<open>ex_handler\<close>.\<close>

definition ex_record_entry :: pydict where
  "ex_record_entry =
    [(''App'', Atom (AStr ''Test'')), (''host'', Atom (AStr ''box'')),
     (''host_ip'', Atom (AStr ''10.0.0.7'')),
     (''name'', Atom (AStr ''app'')),
     (''msg'', Atom (AStr ''code %s at %s'')),
     (''args'', Tuple [AStr ''404'', AStr ''index'']),
     (''levelname'', Atom (AStr ''WARNING'')),
     (''exc_info'', Atom (AStr [])),
     (''Arg1'', Atom (AInt 300)),
     (''timestamp'', Atom (AStr ''2023-11-14T22:13:20.123Z''))]"

text \<open>
  A construction: the caller holds one dictionary, at address 0, and passes it as
  \<^verbatim>\<open>es_additional_fields\<close>, with \<^verbatim>\<open>buffer_size=2\<close>, on a Linux host named
  \<^verbatim>\<open>box\<close> whose name resolves.
\<close>

definition ex_init_env :: init_env where
  "ex_init_env =
    \<lparr>gethostname = ''box'',
     platform_system = ''Linux'',
     gethostbyname = (\<lambda>name. Inr ''10.0.0.7'')\<rparr>"

definition ex_store :: store where
  "ex_store = [[(''App'', Atom (AStr ''Test''))]]"

definition ex_init_args :: init_args where
  "ex_init_args = default_args\<lparr>p_buffer_size := 2, p_es_additional_fields := Some 0\<rparr>"

section \<open>Properties of the operations\<close>

lemma make_actions_cong:
  "index_name_frequency h = index_name_frequency h' \<Longrightarrow> es_index_name h = es_index_name h' \<Longrightarrow>
   es_doc_type h = es_doc_type h' \<Longrightarrow> make_actions h clk i buf = make_actions h' clk i buf"
  by (induction buf arbitrary: i) (auto split: sum.splits)

lemma make_actions_sources:
  "make_actions h clk i buf = Inr acts \<Longrightarrow> map a_source acts = buf"
  by (induction buf arbitrary: i acts) (auto split: sum.splits)

lemma fst_bulk_cong:
  "index_name_frequency h = index_name_frequency h' \<Longrightarrow> es_index_name h = es_index_name h' \<Longrightarrow>
   es_doc_type h = es_doc_type h' \<Longrightarrow> buffer h = buffer h' \<Longrightarrow> fst (bulk ev h) = fst (bulk ev h')"
  unfolding bulk_def using make_actions_cong[of h h' "clock ev" 0 "buffer h'"]
  by (auto split: sum.splits)

lemma cancel_timer_simps [simp]:
  "timer (cancel_timer h) = None"
  "buffer (cancel_timer h) = buffer h"
  "buffer_size (cancel_timer h) = buffer_size h"
  "timed_flush (cancel_timer h) = timed_flush h"
  "es_index_name (cancel_timer h) = es_index_name h"
  "index_name_frequency (cancel_timer h) = index_name_frequency h"
  "es_doc_type (cancel_timer h) = es_doc_type h"
  "es_additional_fields (cancel_timer h) = es_additional_fields h"
  "raise_on_indexing_exceptions (cancel_timer h) = raise_on_indexing_exceptions h"
  "default_timestamp_field_name (cancel_timer h) = default_timestamp_field_name h"
  "timers_created (cancel_timer h) = timers_created h"
  by (simp_all add: cancel_timer_def split: option.splits)

lemma cancel_timer_live:
  "live_timers (cancel_timer h) =
     (case timer h of None \<Rightarrow> live_timers h | Some t \<Rightarrow> removeAll t (live_timers h))"
  by (simp add: cancel_timer_def split: option.splits)

lemma cancel_timer_calls:
  "calls (cancel_timer h) = calls h @
     (case timer h of None \<Rightarrow> []
      | Some t \<Rightarrow> if t \<in> set (live_timers h) then [Timer_cancelled t] else [])"
  by (simp add: cancel_timer_def split: option.splits)

lemma bulk_simps [simp]:
  "timer (snd (bulk ev h)) = timer h"
  "buffer (snd (bulk ev h)) = buffer h"
  "buffer_size (snd (bulk ev h)) = buffer_size h"
  "timed_flush (snd (bulk ev h)) = timed_flush h"
  "es_index_name (snd (bulk ev h)) = es_index_name h"
  "index_name_frequency (snd (bulk ev h)) = index_name_frequency h"
  "es_doc_type (snd (bulk ev h)) = es_doc_type h"
  "es_additional_fields (snd (bulk ev h)) = es_additional_fields h"
  "raise_on_indexing_exceptions (snd (bulk ev h)) = raise_on_indexing_exceptions h"
  "default_timestamp_field_name (snd (bulk ev h)) = default_timestamp_field_name h"
  "timers_created (snd (bulk ev h)) = timers_created h"
  "live_timers (snd (bulk ev h)) = live_timers h"
  by (simp_all add: bulk_def split: sum.splits)

lemma bulk_calls:
  "calls (snd (bulk ev h)) = calls h @
     (case make_actions h (clock ev) 0 (buffer h) of Inl e \<Rightarrow> [] | Inr acts \<Rightarrow> [Bulk_called acts])"
  by (simp add: bulk_def split: sum.splits)

lemma schedule_flush_simps [simp]:
  "buffer (schedule_flush h) = buffer h"
  "buffer_size (schedule_flush h) = buffer_size h"
  "timed_flush (schedule_flush h) = timed_flush h"
  "es_index_name (schedule_flush h) = es_index_name h"
  "index_name_frequency (schedule_flush h) = index_name_frequency h"
  "es_doc_type (schedule_flush h) = es_doc_type h"
  "es_additional_fields (schedule_flush h) = es_additional_fields h"
  "raise_on_indexing_exceptions (schedule_flush h) = raise_on_indexing_exceptions h"
  "default_timestamp_field_name (schedule_flush h) = default_timestamp_field_name h"
  by (simp_all add: schedule_flush_def Let_def split: option.splits)

lemma schedule_flush_timer:
  "timer (schedule_flush h) = Some (case timer h of None \<Rightarrow> timers_created h | Some t \<Rightarrow> t)"
  by (simp add: schedule_flush_def Let_def split: option.splits)

lemma schedule_flush_live:
  "live_timers (schedule_flush h) =
     live_timers h @ (case timer h of None \<Rightarrow> [timers_created h] | Some t \<Rightarrow> [])"
  by (simp add: schedule_flush_def Let_def split: option.splits)

lemma schedule_flush_calls:
  "calls (schedule_flush h) = calls h @ Schedule_flush_called #
     (case timer h of None \<Rightarrow> [Timer_started (timers_created h)] | Some t \<Rightarrow> [])"
  by (simp add: schedule_flush_def Let_def split: option.splits)

lemma flush_fst:
  "fst (flush ev h) =
     (if buffer h \<noteq> [] \<and> raise_on_indexing_exceptions h then fst (bulk ev h) else None)"
proof -
  let ?h3 = "cancel_timer (h\<lparr>calls := calls h @ [Flush_called]\<rparr>)"
  have b: "fst (bulk ev ?h3) = fst (bulk ev h)"
    by (rule fst_bulk_cong) simp_all
  have r: "raise_on_indexing_exceptions (snd (bulk ev ?h3)) = raise_on_indexing_exceptions h"
    by simp
  show ?thesis
    using b r unfolding flush_def Let_def
    by (cases "bulk ev ?h3") (auto split: option.splits)
qed

lemma flush_buffer:
  "buffer (snd (flush ev h)) = (if fst (bulk ev h) = None then [] else buffer h)"
proof -
  let ?h3 = "cancel_timer (h\<lparr>calls := calls h @ [Flush_called]\<rparr>)"
  have b: "fst (bulk ev ?h3) = fst (bulk ev h)"
    by (rule fst_bulk_cong) simp_all
  have r: "buffer (snd (bulk ev ?h3)) = buffer h"
    by simp
  show ?thesis
    using b r unfolding flush_def Let_def
    by (cases "bulk ev ?h3") (auto split: option.splits)
qed

lemma flush_config [simp]:
  "buffer_size (snd (flush ev h)) = buffer_size h"
  "timed_flush (snd (flush ev h)) = timed_flush h"
  "es_index_name (snd (flush ev h)) = es_index_name h"
  "index_name_frequency (snd (flush ev h)) = index_name_frequency h"
  "es_doc_type (snd (flush ev h)) = es_doc_type h"
  "es_additional_fields (snd (flush ev h)) = es_additional_fields h"
  "raise_on_indexing_exceptions (snd (flush ev h)) = raise_on_indexing_exceptions h"
  "default_timestamp_field_name (snd (flush ev h)) = default_timestamp_field_name h"
proof -
  let ?h3 = "cancel_timer (h\<lparr>calls := calls h @ [Flush_called]\<rparr>)"
  obtain r h4 where b: "bulk ev ?h3 = (r, h4)"
    by (cases "bulk ev ?h3")
  have h4: "h4 = snd (bulk ev ?h3)"
    using b by simp
  have c: "buffer_size h4 = buffer_size h" "timed_flush h4 = timed_flush h"
    "es_index_name h4 = es_index_name h" "index_name_frequency h4 = index_name_frequency h"
    "es_doc_type h4 = es_doc_type h" "es_additional_fields h4 = es_additional_fields h"
    "raise_on_indexing_exceptions h4 = raise_on_indexing_exceptions h"
    "default_timestamp_field_name h4 = default_timestamp_field_name h"
    unfolding h4 by simp_all
  show "buffer_size (snd (flush ev h)) = buffer_size h"
    unfolding flush_def Let_def b using c by (simp split: option.splits)
  show "timed_flush (snd (flush ev h)) = timed_flush h"
    unfolding flush_def Let_def b using c by (simp split: option.splits)
  show "es_index_name (snd (flush ev h)) = es_index_name h"
    unfolding flush_def Let_def b using c by (simp split: option.splits)
  show "index_name_frequency (snd (flush ev h)) = index_name_frequency h"
    unfolding flush_def Let_def b using c by (simp split: option.splits)
  show "es_doc_type (snd (flush ev h)) = es_doc_type h"
    unfolding flush_def Let_def b using c by (simp split: option.splits)
  show "es_additional_fields (snd (flush ev h)) = es_additional_fields h"
    unfolding flush_def Let_def b using c by (simp split: option.splits)
  show "raise_on_indexing_exceptions (snd (flush ev h)) = raise_on_indexing_exceptions h"
    unfolding flush_def Let_def b using c by (simp split: option.splits)
  show "default_timestamp_field_name (snd (flush ev h)) = default_timestamp_field_name h"
    unfolding flush_def Let_def b using c by (simp split: option.splits)
qed

lemma flush_timer:
  "timer (snd (flush ev h)) = (if failure_swallowed ev h then Some (timers_created h) else None)"
proof -
  let ?h3 = "cancel_timer (h\<lparr>calls := calls h @ [Flush_called]\<rparr>)"
  have b: "fst (bulk ev ?h3) = fst (bulk ev h)"
    by (rule fst_bulk_cong) simp_all
  have r: "timer (snd (bulk ev ?h3)) = None" "timers_created (snd (bulk ev ?h3)) = timers_created h"
      "raise_on_indexing_exceptions (snd (bulk ev ?h3)) = raise_on_indexing_exceptions h"
    by simp_all
  show ?thesis
    using b r unfolding flush_def Let_def failure_swallowed_def
    by (cases "bulk ev ?h3") (auto split: option.splits simp: schedule_flush_timer)
qed

lemma flush_live:
  "live_timers (snd (flush ev h)) =
     (case timer h of None \<Rightarrow> live_timers h | Some t \<Rightarrow> removeAll t (live_timers h))
     @ (if failure_swallowed ev h then [timers_created h] else [])"
proof -
  let ?h3 = "cancel_timer (h\<lparr>calls := calls h @ [Flush_called]\<rparr>)"
  have b: "fst (bulk ev ?h3) = fst (bulk ev h)"
    by (rule fst_bulk_cong) simp_all
  have r: "timer (snd (bulk ev ?h3)) = None" "timers_created (snd (bulk ev ?h3)) = timers_created h"
      "raise_on_indexing_exceptions (snd (bulk ev ?h3)) = raise_on_indexing_exceptions h"
      "live_timers (snd (bulk ev ?h3)) = live_timers ?h3"
    by simp_all
  show ?thesis
    using b r unfolding flush_def Let_def failure_swallowed_def
    by (cases "bulk ev ?h3") (auto split: option.splits simp: schedule_flush_live cancel_timer_live)
qed

lemma flush_calls:
  "calls (snd (flush ev h)) =
     calls h @ [Flush_called]
     @ (case timer h of None \<Rightarrow> []
        | Some t \<Rightarrow> if t \<in> set (live_timers h) then [Timer_cancelled t] else [])
     @ (if buffer h = [] then []
        else (case make_actions h (clock ev) 0 (buffer h) of
                Inl e \<Rightarrow> [] | Inr acts \<Rightarrow> [Bulk_called acts])
             @ (case fst (bulk ev h) of
                  None \<Rightarrow> []
                | Some e \<Rightarrow> if raise_on_indexing_exceptions h then []
                            else [Exc_printed e, Schedule_flush_called,
                                  Timer_started (timers_created h)]))"
proof -
  let ?h3 = "cancel_timer (h\<lparr>calls := calls h @ [Flush_called]\<rparr>)"
  have b: "fst (bulk ev ?h3) = fst (bulk ev h)"
    by (rule fst_bulk_cong) simp_all
  have m: "make_actions ?h3 (clock ev) 0 (buffer h) = make_actions h (clock ev) 0 (buffer h)"
    by (rule make_actions_cong) simp_all
  have r: "timer (snd (bulk ev ?h3)) = None" "timers_created (snd (bulk ev ?h3)) = timers_created h"
      "raise_on_indexing_exceptions (snd (bulk ev ?h3)) = raise_on_indexing_exceptions h"
    by simp_all
  have c: "calls (snd (bulk ev ?h3)) = calls ?h3 @
     (case make_actions h (clock ev) 0 (buffer h) of Inl e \<Rightarrow> [] | Inr acts \<Rightarrow> [Bulk_called acts])"
    using m by (simp add: bulk_calls)
  show ?thesis
    using b r c unfolding flush_def Let_def
    by (cases "bulk ev ?h3")
       (auto split: option.splits simp: schedule_flush_calls cancel_timer_calls)
qed

lemma new_calls_append: "calls h' = calls h @ xs \<Longrightarrow> new_calls h h' = xs"
  by (simp add: new_calls_def)

lemma make_actions_ok:
  assumes "index_name_frequency h \<noteq> WEEKLY"
  shows "\<exists>acts. make_actions h clk i buf = Inr acts"
proof (induction buf arbitrary: i)
  case Nil
  show ?case by simp
next
  case (Cons x xs)
  obtain acts where "make_actions h clk (Suc i) xs = Inr acts"
    using Cons by blast
  moreover obtain idx where
    "INDEX_FREQUENCY_FUNCION_DICT (index_name_frequency h) (es_index_name h) (clk i) = Inr idx"
    using assms by (cases "index_name_frequency h") auto
  ultimately show ?case by simp
qed

lemma emit_rec_cong:
  "es_additional_fields h = es_additional_fields h' \<Longrightarrow>
   default_timestamp_field_name h = default_timestamp_field_name h' \<Longrightarrow>
   emit_rec h r = emit_rec h' r"
  by (simp add: emit_rec_def cong: sum.case_cong)

lemma bulk_fst_no_weekly:
  "index_name_frequency h \<noteq> WEEKLY \<Longrightarrow> fst (bulk ev h) = bulk_raises ev"
  using make_actions_ok[of h "clock ev" 0 "buffer h"] by (auto simp: bulk_def)

lemma ex_get_es_datetime_str:
  "get_es_datetime_str 1700000000123456 = Inr ''2023-11-14T22:13:20.123Z''"
  by code_simp

lemma ex_emit_rec: "emit_rec ex_handler ex_record = Inr ex_record_entry"
  by (simp add: emit_rec_def ex_handler_def ex_record_def ex_record_entry_def copy_attr_def
        LOGGING_FILTER_FIELDS_def ex_get_es_datetime_str str_int_def str_nat.simps digit_char_def)

lemma ex_emit_rec_loaded: "emit_rec ex_loaded ex_record = Inr ex_record_entry"
  using emit_rec_cong[of ex_loaded ex_handler ex_record]
  by (simp add: ex_emit_rec ex_loaded_def)

lemma ex_emit_rec_fail_fast: "emit_rec ex_fail_fast ex_record = Inr ex_record_entry"
  using emit_rec_cong[of ex_fail_fast ex_handler ex_record]
  by (simp add: ex_emit_rec ex_loaded_def ex_fail_fast_def)

lemma ex_down: "bulk_raises ex_env_down = Some (BulkError ''connection refused'')"
  by (simp add: ex_env_down_def)

lemma ex_loaded_fields:
  "buffer ex_loaded = [ex_entry]" "\<not> raise_on_indexing_exceptions ex_loaded"
  "index_name_frequency ex_loaded = DAILY" "buffer_size ex_loaded = 2"
  "\<not> timed_flush ex_loaded" "timer ex_loaded = Some 0" "timers_created ex_loaded = 1"
  "live_timers ex_loaded = [0]"
  by (simp_all add: ex_loaded_def ex_handler_def)

lemma ex_fail_fast_fields:
  "buffer ex_fail_fast = [ex_entry]" "raise_on_indexing_exceptions ex_fail_fast"
  "index_name_frequency ex_fail_fast = DAILY" "buffer_size ex_fail_fast = 2"
  "\<not> timed_flush ex_fail_fast" "timer ex_fail_fast = Some 0" "timers_created ex_fail_fast = 1"
  "live_timers ex_fail_fast = [0]"
  by (simp_all add: ex_fail_fast_def ex_loaded_def ex_handler_def)

text \<open>
  C3. A failure of the bulk transmission during \<^verbatim>\<open>flush\<close> reaches the caller of
  \<^verbatim>\<open>flush\<close>, and through \<^verbatim>\<open>emit\<close> the caller of \<^verbatim>\<open>emit\<close>, exactly when
  \<^verbatim>\<open>raise_on_indexing_exceptions\<close> is set. When it is not set \<^verbatim>\<open>flush\<close> never raises:
  the failure is printed on the error stream and \<^verbatim>\<open>_schedule_flush\<close> is called, which
  arms a timer.
\<close>

theorem flush_failure_propagates_iff_fail_fast:
  "(buffer h \<noteq> [] \<and> fst (bulk ev h) = Some e \<longrightarrow>
      (fst (flush ev h) = Some e \<longleftrightarrow> raise_on_indexing_exceptions h))
   \<and> (\<not> raise_on_indexing_exceptions h \<longrightarrow> fst (flush ev h) = None)
   \<and> (buffer h \<noteq> [] \<and> fst (bulk ev h) = Some e \<and> \<not> raise_on_indexing_exceptions h \<longrightarrow>
        (\<exists>pre. new_calls h (snd (flush ev h)) =
                 pre @ [Exc_printed e, Schedule_flush_called, Timer_started (timers_created h)])
        \<and> timer (snd (flush ev h)) = Some (timers_created h)
        \<and> timers_created h \<in> set (live_timers (snd (flush ev h))))
   \<and> (emit_rec h r = Inr rec \<and> buffer_size h \<le> int (length (buffer h @ [rec])) \<and> \<not> timed_flush h
        \<and> fst (bulk ev (h\<lparr>buffer := buffer h @ [rec]\<rparr>)) = Some e \<longrightarrow>
        (fst (emit ev r h) = Some e \<longleftrightarrow> raise_on_indexing_exceptions h))"
proof (intro conjI impI)
  assume "buffer h \<noteq> [] \<and> fst (bulk ev h) = Some e"
  then show "fst (flush ev h) = Some e \<longleftrightarrow> raise_on_indexing_exceptions h"
    by (simp add: flush_fst)
next
  assume "\<not> raise_on_indexing_exceptions h"
  then show "fst (flush ev h) = None"
    by (simp add: flush_fst)
next
  assume a: "buffer h \<noteq> [] \<and> fst (bulk ev h) = Some e \<and> \<not> raise_on_indexing_exceptions h"
  let ?pre = "[Flush_called]
       @ (case timer h of None \<Rightarrow> []
          | Some t \<Rightarrow> if t \<in> set (live_timers h) then [Timer_cancelled t] else [])
       @ (case make_actions h (clock ev) 0 (buffer h) of
            Inl e \<Rightarrow> [] | Inr acts \<Rightarrow> [Bulk_called acts])"
  from a have "calls (snd (flush ev h)) = calls h @
      (?pre @ [Exc_printed e, Schedule_flush_called, Timer_started (timers_created h)])"
    by (simp add: flush_calls)
  then have "new_calls h (snd (flush ev h)) =
      ?pre @ [Exc_printed e, Schedule_flush_called, Timer_started (timers_created h)]"
    by (rule new_calls_append)
  then show "\<exists>pre. new_calls h (snd (flush ev h)) =
                 pre @ [Exc_printed e, Schedule_flush_called, Timer_started (timers_created h)]"
    by (rule exI)
next
  assume "buffer h \<noteq> [] \<and> fst (bulk ev h) = Some e \<and> \<not> raise_on_indexing_exceptions h"
  then show "timer (snd (flush ev h)) = Some (timers_created h)"
    by (simp add: flush_timer failure_swallowed_def)
next
  assume "buffer h \<noteq> [] \<and> fst (bulk ev h) = Some e \<and> \<not> raise_on_indexing_exceptions h"
  then show "timers_created h \<in> set (live_timers (snd (flush ev h)))"
    by (simp add: flush_live failure_swallowed_def)
next
  assume "emit_rec h r = Inr rec \<and> buffer_size h \<le> int (length (buffer h @ [rec])) \<and> \<not> timed_flush h
        \<and> fst (bulk ev (h\<lparr>buffer := buffer h @ [rec]\<rparr>)) = Some e"
  then show "fst (emit ev r h) = Some e \<longleftrightarrow> raise_on_indexing_exceptions h"
    by (simp add: emit_def try_flush_def flush_fst)
qed

theorem flush_failure_propagates_iff_fail_fast_witness:
  "buffer ex_loaded \<noteq> []
   \<and> fst (bulk ex_env_down ex_loaded) = Some (BulkError ''connection refused'')
   \<and> \<not> raise_on_indexing_exceptions ex_loaded
   \<and> fst (flush ex_env_down ex_loaded) = None
   \<and> timer (snd (flush ex_env_down ex_loaded)) = Some 1
   \<and> raise_on_indexing_exceptions ex_fail_fast
   \<and> fst (flush ex_env_down ex_fail_fast) = Some (BulkError ''connection refused'')
   \<and> emit_rec ex_fail_fast ex_record = Inr ex_record_entry
   \<and> fst (emit ex_env_down ex_record ex_fail_fast) = Some (BulkError ''connection refused'')"
proof -
  let ?e = "BulkError ''connection refused''"
  have b1: "fst (bulk ex_env_down ex_loaded) = Some ?e"
    by (simp add: bulk_fst_no_weekly ex_loaded_fields ex_down)
  have b2: "fst (bulk ex_env_down ex_fail_fast) = Some ?e"
    by (simp add: bulk_fst_no_weekly ex_fail_fast_fields ex_down)
  have b3: "fst (bulk ex_env_down (ex_fail_fast\<lparr>buffer := buffer ex_fail_fast @ [ex_record_entry]\<rparr>))
              = Some ?e"
    by (simp add: bulk_fst_no_weekly ex_fail_fast_fields ex_down)
  note T1 = flush_failure_propagates_iff_fail_fast
              [of ex_loaded ex_env_down ?e ex_record ex_record_entry]
  note T2 = flush_failure_propagates_iff_fail_fast
              [of ex_fail_fast ex_env_down ?e ex_record ex_record_entry]
  have "fst (flush ex_env_down ex_loaded) = None"
    using T1 by (simp add: ex_loaded_fields)
  moreover have "timer (snd (flush ex_env_down ex_loaded)) = Some 1"
    using T1 b1 by (simp add: ex_loaded_fields)
  moreover have "fst (flush ex_env_down ex_fail_fast) = Some ?e"
    using T2 b2 by (simp add: ex_fail_fast_fields)
  moreover have "fst (emit ex_env_down ex_record ex_fail_fast) = Some ?e"
    using T2 b3 ex_emit_rec_fail_fast by (simp add: ex_fail_fast_fields)
  ultimately show ?thesis
    using b1 ex_emit_rec_fail_fast by (simp add: ex_loaded_fields ex_fail_fast_fields)
qed

lemma flush_timers_created:
  "timers_created (snd (flush ev h)) =
     (if failure_swallowed ev h then Suc (timers_created h) else timers_created h)"
proof -
  let ?h3 = "cancel_timer (h\<lparr>calls := calls h @ [Flush_called]\<rparr>)"
  have b: "fst (bulk ev ?h3) = fst (bulk ev h)"
    by (rule fst_bulk_cong) simp_all
  have r: "timer (snd (bulk ev ?h3)) = None" "timers_created (snd (bulk ev ?h3)) = timers_created h"
      "raise_on_indexing_exceptions (snd (bulk ev ?h3)) = raise_on_indexing_exceptions h"
    by simp_all
  show ?thesis
    using b r unfolding flush_def Let_def failure_swallowed_def
    by (cases "bulk ev ?h3") (auto split: option.splits simp: schedule_flush_def Let_def)
qed

lemma fire_calls:
  "t \<in> set (live_timers h) \<Longrightarrow> calls (fire ev t h) = calls (snd (flush ev h))"
  by (simp add: fire_def Let_def)

text \<open>
  C1, as the code has it. When the bulk transmission of a flush raises and
  \<^verbatim>\<open>raise_on_indexing_exceptions\<close> is off, the batch is not dropped: \<^verbatim>\<open>flush\<close> returns
  normally, the buffer still holds exactly the records of the failed batch, a newly armed
  timer is held and alive, and when that timer fires the same records are handed to the
  bulk call again.
\<close>

theorem failed_batch_kept_for_retry:
  "buffer h \<noteq> [] \<and> fst (bulk ev h) = Some e \<and> \<not> raise_on_indexing_exceptions h \<longrightarrow>
     fst (flush ev h) = None
     \<and> buffer (snd (flush ev h)) = buffer h
     \<and> timer (snd (flush ev h)) = Some (timers_created h)
     \<and> timers_created h \<in> set (live_timers (snd (flush ev h)))
     \<and> (\<forall>ev' acts. make_actions h (clock ev') 0 (buffer h) = Inr acts \<longrightarrow>
           map a_source acts = buffer h
           \<and> Bulk_called acts \<in> set (new_calls (snd (flush ev h))
                                      (fire ev' (timers_created h) (snd (flush ev h)))))"
proof (intro impI)
  assume a: "buffer h \<noteq> [] \<and> fst (bulk ev h) = Some e \<and> \<not> raise_on_indexing_exceptions h"
  let ?h' = "snd (flush ev h)"
  let ?t = "timers_created h"
  have sw: "failure_swallowed ev h"
    using a by (simp add: failure_swallowed_def)
  have r: "fst (flush ev h) = None"
    using a by (simp add: flush_fst)
  have b: "buffer ?h' = buffer h"
    using a by (simp add: flush_buffer)
  have t: "timer ?h' = Some ?t"
    using sw by (simp add: flush_timer)
  have l: "?t \<in> set (live_timers ?h')"
    using sw by (simp add: flush_live)
  have retry: "map a_source acts = buffer h
      \<and> Bulk_called acts \<in> set (new_calls ?h' (fire ev' ?t ?h'))"
    if m: "make_actions h (clock ev') 0 (buffer h) = Inr acts" for ev' acts
  proof
    show "map a_source acts = buffer h"
      using m by (rule make_actions_sources)
    have m': "make_actions ?h' (clock ev') 0 (buffer ?h') = Inr acts"
      using m b make_actions_cong[of ?h' h "clock ev'" 0 "buffer h"] by simp
    let ?xs = "Flush_called #
           (case timer ?h' of None \<Rightarrow> []
            | Some t \<Rightarrow> if t \<in> set (live_timers ?h') then [Timer_cancelled t] else [])"
    let ?ys = "case fst (bulk ev' ?h') of None \<Rightarrow> []
            | Some e \<Rightarrow>
                if raise_on_indexing_exceptions ?h' then []
                else [Exc_printed e, Schedule_flush_called, Timer_started (timers_created ?h')]"
    have "calls (snd (flush ev' ?h')) = calls ?h' @ (?xs @ Bulk_called acts # ?ys)"
      using a b m' by (simp add: flush_calls[of ev' ?h'])
    then have "calls (fire ev' ?t ?h') = calls ?h' @ (?xs @ Bulk_called acts # ?ys)"
      using l by (simp add: fire_calls)
    then have "new_calls ?h' (fire ev' ?t ?h') = ?xs @ Bulk_called acts # ?ys"
      by (rule new_calls_append)
    then show "Bulk_called acts \<in> set (new_calls ?h' (fire ev' ?t ?h'))"
      by simp
  qed
  show "fst (flush ev h) = None
     \<and> buffer ?h' = buffer h
     \<and> timer ?h' = Some ?t
     \<and> ?t \<in> set (live_timers ?h')
     \<and> (\<forall>ev' acts. make_actions h (clock ev') 0 (buffer h) = Inr acts \<longrightarrow>
           map a_source acts = buffer h
           \<and> Bulk_called acts \<in> set (new_calls ?h' (fire ev' ?t ?h')))"
    using r b t l retry by blast
qed

theorem failed_batch_kept_for_retry_witness:
  "buffer ex_loaded \<noteq> []
   \<and> fst (bulk ex_env_down ex_loaded) = Some (BulkError ''connection refused'')
   \<and> \<not> raise_on_indexing_exceptions ex_loaded
   \<and> buffer (snd (flush ex_env_down ex_loaded)) = [ex_entry]
   \<and> timer (snd (flush ex_env_down ex_loaded)) = Some 1
   \<and> make_actions ex_loaded (clock ex_env_ok) 0 (buffer ex_loaded)
       = Inr [\<lparr>a_index = get_daily_index_name ''python_logger'' ex_now,
                a_type = ''python_log'', a_source = ex_entry\<rparr>]
   \<and> Bulk_called [\<lparr>a_index = get_daily_index_name ''python_logger'' ex_now,
                     a_type = ''python_log'', a_source = ex_entry\<rparr>]
       \<in> set (new_calls (snd (flush ex_env_down ex_loaded))
                 (fire ex_env_ok 1 (snd (flush ex_env_down ex_loaded))))"
proof -
  let ?e = "BulkError ''connection refused''"
  let ?acts = "[\<lparr>a_index = get_daily_index_name ''python_logger'' ex_now,
                  a_type = ''python_log'', a_source = ex_entry\<rparr>]"
  have b1: "fst (bulk ex_env_down ex_loaded) = Some ?e"
    by (simp add: bulk_fst_no_weekly ex_loaded_fields ex_down)
  have m: "make_actions ex_loaded (clock ex_env_ok) 0 (buffer ex_loaded) = Inr ?acts"
    by (simp add: ex_loaded_def ex_handler_def ex_env_ok_def)
  have tc: "timers_created ex_loaded = 1"
    by (simp add: ex_loaded_fields)
  have hyp: "buffer ex_loaded \<noteq> [] \<and> fst (bulk ex_env_down ex_loaded) = Some ?e
      \<and> \<not> raise_on_indexing_exceptions ex_loaded"
    using b1 by (simp add: ex_loaded_fields)
  note C = failed_batch_kept_for_retry [of ex_loaded ex_env_down ?e, THEN mp, OF hyp,
             unfolded tc]
  have c2: "buffer (snd (flush ex_env_down ex_loaded)) = [ex_entry]"
    using C by (simp add: ex_loaded_fields)
  have c3: "timer (snd (flush ex_env_down ex_loaded)) = Some 1"
    using C by blast
  have c5: "Bulk_called ?acts \<in> set (new_calls (snd (flush ex_env_down ex_loaded))
          (fire ex_env_ok 1 (snd (flush ex_env_down ex_loaded))))"
    using C m by blast
  show ?thesis
    using hyp c2 c3 c5 m by blast
qed

text \<open>
  C1 as stated fails: after a flush whose transmission failed, with fail-fast off, the
  record of the failed batch is still in the buffer.
\<close>

theorem failed_batch_lost_counterexample:
  "fst (bulk ex_env_down ex_loaded) = Some (BulkError ''connection refused'')
   \<and> \<not> raise_on_indexing_exceptions ex_loaded
   \<and> buffer ex_loaded = [ex_entry]
   \<and> fst (flush ex_env_down ex_loaded) = None
   \<and> buffer (snd (flush ex_env_down ex_loaded)) = [ex_entry]"
  by (simp add: bulk_fst_no_weekly ex_loaded_fields ex_down flush_fst flush_buffer)

text \<open>
  C4, as the code has it. A \<^verbatim>\<open>flush\<close> that returns without raising leaves the buffer
  empty whenever its transmission did not fail (the bulk call returned, or there was
  nothing to send). A \<^verbatim>\<open>flush\<close> that catches a failure of its transmission (the
  buffer is not empty, the bulk call raises, fail-fast is off) returns without raising
  and leaves the buffer exactly as it was; that is the only way for the buffer to be
  non-empty after a normal return. With an empty buffer at entry \<^verbatim>\<open>flush\<close> makes no
  bulk call, does not call \<^verbatim>\<open>_schedule_flush\<close> and starts no timer: it only cancels the
  timer it held.
\<close>

theorem flush_empties_buffer_unless_failure_caught:
  "(fst (flush ev h) = None \<and> (buffer h = [] \<or> fst (bulk ev h) = None) \<longrightarrow>
      length (buffer (snd (flush ev h))) = 0)
   \<and> (buffer h \<noteq> [] \<and> fst (bulk ev h) \<noteq> None \<and> \<not> raise_on_indexing_exceptions h \<longrightarrow>
        fst (flush ev h) = None \<and> buffer (snd (flush ev h)) = buffer h)
   \<and> (fst (flush ev h) = None \<and> buffer (snd (flush ev h)) \<noteq> [] \<longrightarrow>
        failure_swallowed ev h \<and> buffer (snd (flush ev h)) = buffer h)
   \<and> (buffer h = [] \<longrightarrow>
        fst (flush ev h) = None
        \<and> new_calls h (snd (flush ev h)) =
            Flush_called # (case timer h of None \<Rightarrow> []
               | Some t \<Rightarrow> if t \<in> set (live_timers h) then [Timer_cancelled t] else [])
        \<and> (\<forall>acts. Bulk_called acts \<notin> set (new_calls h (snd (flush ev h))))
        \<and> Schedule_flush_called \<notin> set (new_calls h (snd (flush ev h)))
        \<and> (\<forall>t. Timer_started t \<notin> set (new_calls h (snd (flush ev h))))
        \<and> timer (snd (flush ev h)) = None
        \<and> timers_created (snd (flush ev h)) = timers_created h)"
proof (intro conjI impI)
  assume "fst (flush ev h) = None \<and> (buffer h = [] \<or> fst (bulk ev h) = None)"
  then show "length (buffer (snd (flush ev h))) = 0"
    by (auto simp: flush_buffer)
next
  assume "buffer h \<noteq> [] \<and> fst (bulk ev h) \<noteq> None \<and> \<not> raise_on_indexing_exceptions h"
  then show "fst (flush ev h) = None"
    by (simp add: flush_fst)
next
  assume "buffer h \<noteq> [] \<and> fst (bulk ev h) \<noteq> None \<and> \<not> raise_on_indexing_exceptions h"
  then show "buffer (snd (flush ev h)) = buffer h"
    by (auto simp: flush_buffer)
next
  assume a: "fst (flush ev h) = None \<and> buffer (snd (flush ev h)) \<noteq> []"
  then have "buffer h \<noteq> [] \<and> fst (bulk ev h) \<noteq> None"
    by (auto simp: flush_buffer split: if_splits)
  moreover from this a have "\<not> raise_on_indexing_exceptions h"
    by (auto simp: flush_fst)
  ultimately show "failure_swallowed ev h"
    by (simp add: failure_swallowed_def)
next
  assume "fst (flush ev h) = None \<and> buffer (snd (flush ev h)) \<noteq> []"
  then show "buffer (snd (flush ev h)) = buffer h"
    by (auto simp: flush_buffer split: if_splits)
next
  assume e: "buffer h = []"
  show "fst (flush ev h) = None"
    using e by (simp add: flush_fst)
  have c: "calls (snd (flush ev h)) = calls h @
      (Flush_called # (case timer h of None \<Rightarrow> []
         | Some t \<Rightarrow> if t \<in> set (live_timers h) then [Timer_cancelled t] else []))"
    using e by (simp add: flush_calls)
  then show n: "new_calls h (snd (flush ev h)) =
      Flush_called # (case timer h of None \<Rightarrow> []
         | Some t \<Rightarrow> if t \<in> set (live_timers h) then [Timer_cancelled t] else [])"
    by (rule new_calls_append)
  show "\<forall>acts. Bulk_called acts \<notin> set (new_calls h (snd (flush ev h)))"
    unfolding n by (simp split: option.splits)
  show "Schedule_flush_called \<notin> set (new_calls h (snd (flush ev h)))"
    unfolding n by (simp split: option.splits)
  show "\<forall>t. Timer_started t \<notin> set (new_calls h (snd (flush ev h)))"
    unfolding n by (simp split: option.splits)
  show "timer (snd (flush ev h)) = None"
    using e by (simp add: flush_timer failure_swallowed_def)
  show "timers_created (snd (flush ev h)) = timers_created h"
    using e by (simp add: flush_timers_created failure_swallowed_def)
qed

theorem flush_empties_buffer_unless_failure_caught_witness:
  "fst (flush ex_env_ok ex_loaded) = None
   \<and> fst (bulk ex_env_ok ex_loaded) = None
   \<and> buffer ex_loaded = [ex_entry]
   \<and> length (buffer (snd (flush ex_env_ok ex_loaded))) = 0
   \<and> fst (bulk ex_env_down ex_loaded) \<noteq> None
   \<and> \<not> raise_on_indexing_exceptions ex_loaded
   \<and> fst (flush ex_env_down ex_loaded) = None
   \<and> buffer (snd (flush ex_env_down ex_loaded)) = [ex_entry]
   \<and> failure_swallowed ex_env_down ex_loaded
   \<and> buffer (ex_loaded\<lparr>buffer := []\<rparr>) = []
   \<and> new_calls (ex_loaded\<lparr>buffer := []\<rparr>) (snd (flush ex_env_down (ex_loaded\<lparr>buffer := []\<rparr>)))
       = [Flush_called, Timer_cancelled 0]
   \<and> timer (snd (flush ex_env_down (ex_loaded\<lparr>buffer := []\<rparr>))) = None"
proof -
  have ok: "fst (bulk ex_env_ok ex_loaded) = None"
    by (simp add: bulk_fst_no_weekly ex_loaded_fields ex_env_ok_def)
  have dn: "fst (bulk ex_env_down ex_loaded) \<noteq> None"
    by (simp add: bulk_fst_no_weekly ex_loaded_fields ex_down)
  have r1: "fst (flush ex_env_ok ex_loaded) = None"
    using ok by (simp add: flush_fst)
  have b: "buffer ex_loaded = [ex_entry]" "buffer ex_loaded \<noteq> []"
    "\<not> raise_on_indexing_exceptions ex_loaded"
    by (simp_all add: ex_loaded_fields)
  note T1 = flush_empties_buffer_unless_failure_caught [of ex_env_ok ex_loaded]
  note T2 = flush_empties_buffer_unless_failure_caught [of ex_env_down ex_loaded]
  note T3 = flush_empties_buffer_unless_failure_caught [of ex_env_down "ex_loaded\<lparr>buffer := []\<rparr>"]
  have c1: "length (buffer (snd (flush ex_env_ok ex_loaded))) = 0"
    using T1 r1 ok by blast
  have c2: "fst (flush ex_env_down ex_loaded) = None
      \<and> buffer (snd (flush ex_env_down ex_loaded)) = buffer ex_loaded"
    using T2 dn b(2,3) by blast
  then have c2': "fst (flush ex_env_down ex_loaded) = None"
      "buffer (snd (flush ex_env_down ex_loaded)) = [ex_entry]"
    using b(1) by simp_all
  have c3: "failure_swallowed ex_env_down ex_loaded"
    using T2 c2' by simp
  have c4: "new_calls (ex_loaded\<lparr>buffer := []\<rparr>) (snd (flush ex_env_down (ex_loaded\<lparr>buffer := []\<rparr>)))
       = [Flush_called, Timer_cancelled 0]
     \<and> timer (snd (flush ex_env_down (ex_loaded\<lparr>buffer := []\<rparr>))) = None"
    using T3 by (simp add: ex_loaded_fields)
  show ?thesis
    using ok dn r1 b(1,3) c1 c2' c3 c4 by simp
qed

text \<open>
  C4 as stated fails: a flush whose transmission failed with fail-fast off returns without
  raising, and the buffer still has length 1.
\<close>

theorem flush_returns_with_full_buffer_counterexample:
  "fst (flush ex_env_down ex_loaded) = None
   \<and> length (buffer (snd (flush ex_env_down ex_loaded))) = 1"
  by (simp add: bulk_fst_no_weekly ex_loaded_fields ex_down flush_fst flush_buffer)

lemma emit_appended:
  "emit_rec h r = Inr rec \<Longrightarrow> emit ev r h = try_flush ev (h\<lparr>buffer := buffer h @ [rec]\<rparr>)"
  by (simp add: emit_def)

text \<open>
  C2. Whenever \<^verbatim>\<open>emit\<close> has appended the entry, \<^verbatim>\<open>flush\<close> is called inside that
  \<^verbatim>\<open>emit\<close> exactly when the buffer, the new entry included, has reached
  \<^verbatim>\<open>buffer_size\<close> and \<^verbatim>\<open>timed_flush\<close> is off; then \<^verbatim>\<open>emit\<close> is that flush of the
  extended buffer. In every other case \<^verbatim>\<open>emit\<close> calls no flush: it calls
  \<^verbatim>\<open>_schedule_flush\<close>, returns normally, and leaves the entry buffered with a timer
  held.
\<close>

theorem emit_flushes_iff_threshold_reached:
  "emit_rec h r = Inr rec \<longrightarrow>
     (Flush_called \<in> set (new_calls h (snd (emit ev r h)))
        \<longleftrightarrow> buffer_size h \<le> int (length (buffer h @ [rec])) \<and> \<not> timed_flush h)
     \<and> (buffer_size h \<le> int (length (buffer h @ [rec])) \<and> \<not> timed_flush h \<longrightarrow>
          emit ev r h = flush ev (h\<lparr>buffer := buffer h @ [rec]\<rparr>))
     \<and> (\<not> (buffer_size h \<le> int (length (buffer h @ [rec])) \<and> \<not> timed_flush h) \<longrightarrow>
          fst (emit ev r h) = None
          \<and> new_calls h (snd (emit ev r h)) =
              Schedule_flush_called #
                (case timer h of None \<Rightarrow> [Timer_started (timers_created h)] | Some t \<Rightarrow> [])
          \<and> buffer (snd (emit ev r h)) = buffer h @ [rec]
          \<and> timer (snd (emit ev r h)) \<noteq> None)"
proof (intro impI)
  assume a: "emit_rec h r = Inr rec"
  let ?h1 = "h\<lparr>buffer := buffer h @ [rec]\<rparr>"
  let ?c = "buffer_size h \<le> int (length (buffer h @ [rec])) \<and> \<not> timed_flush h"
  have e: "emit ev r h = try_flush ev ?h1"
    using a by (rule emit_appended)
  have yes: "emit ev r h = flush ev ?h1" if ?c
    using that e by (simp add: try_flush_def)
  have no: "emit ev r h = (None, schedule_flush ?h1)" if "\<not> ?c"
    using that e by (auto simp: try_flush_def)
  have fl: "Flush_called \<in> set (new_calls h (snd (emit ev r h)))" if c: ?c
  proof -
    have "\<exists>xs. calls (snd (flush ev ?h1)) = calls h @ (Flush_called # xs)"
      by (simp add: flush_calls)
    then obtain xs where "calls (snd (emit ev r h)) = calls h @ (Flush_called # xs)"
      using yes[OF c] by auto
    then have "new_calls h (snd (emit ev r h)) = Flush_called # xs"
      by (rule new_calls_append)
    then show ?thesis by simp
  qed
  have sc: "new_calls h (snd (emit ev r h)) =
      Schedule_flush_called #
        (case timer h of None \<Rightarrow> [Timer_started (timers_created h)] | Some t \<Rightarrow> [])"
    if c: "\<not> ?c"
  proof -
    have "calls (snd (emit ev r h)) = calls h @ (Schedule_flush_called #
        (case timer h of None \<Rightarrow> [Timer_started (timers_created h)] | Some t \<Rightarrow> []))"
      using no[OF c] by (simp add: schedule_flush_calls cong: option.case_cong)
    then show ?thesis by (rule new_calls_append)
  qed
  have nf: "Flush_called \<notin> set (new_calls h (snd (emit ev r h)))" if c: "\<not> ?c"
    unfolding sc[OF c] by (simp split: option.splits)
  have p1: "Flush_called \<in> set (new_calls h (snd (emit ev r h))) \<longleftrightarrow> ?c"
    using fl nf by blast
  have p3: "fst (emit ev r h) = None \<and> buffer (snd (emit ev r h)) = buffer h @ [rec]
      \<and> timer (snd (emit ev r h)) \<noteq> None" if c: "\<not> ?c"
    using no[OF c] by (simp add: schedule_flush_timer)
  show "(Flush_called \<in> set (new_calls h (snd (emit ev r h))) \<longleftrightarrow> ?c)
     \<and> (?c \<longrightarrow> emit ev r h = flush ev ?h1)
     \<and> (\<not> ?c \<longrightarrow>
          fst (emit ev r h) = None
          \<and> new_calls h (snd (emit ev r h)) =
              Schedule_flush_called #
                (case timer h of None \<Rightarrow> [Timer_started (timers_created h)] | Some t \<Rightarrow> [])
          \<and> buffer (snd (emit ev r h)) = buffer h @ [rec]
          \<and> timer (snd (emit ev r h)) \<noteq> None)"
    using p1 yes sc p3 by blast
qed

theorem emit_flushes_iff_threshold_reached_witness:
  "emit_rec ex_loaded ex_record = Inr ex_record_entry
   \<and> buffer_size ex_loaded \<le> int (length (buffer ex_loaded @ [ex_record_entry]))
   \<and> \<not> timed_flush ex_loaded
   \<and> Flush_called \<in> set (new_calls ex_loaded (snd (emit ex_env_ok ex_record ex_loaded)))
   \<and> emit_rec ex_handler ex_record = Inr ex_record_entry
   \<and> \<not> buffer_size ex_handler \<le> int (length (buffer ex_handler @ [ex_record_entry]))
   \<and> Flush_called \<notin> set (new_calls ex_handler (snd (emit ex_env_ok ex_record ex_handler)))
   \<and> new_calls ex_handler (snd (emit ex_env_ok ex_record ex_handler))
       = [Schedule_flush_called, Timer_started 0]
   \<and> buffer (snd (emit ex_env_ok ex_record ex_handler)) = [ex_record_entry]"
proof -
  have c1: "buffer_size ex_loaded \<le> int (length (buffer ex_loaded @ [ex_record_entry]))
      \<and> \<not> timed_flush ex_loaded"
    by (simp add: ex_loaded_fields)
  have c2: "\<not> (buffer_size ex_handler \<le> int (length (buffer ex_handler @ [ex_record_entry]))
      \<and> \<not> timed_flush ex_handler)"
    by (simp add: ex_handler_def)
  note T1 = emit_flushes_iff_threshold_reached
              [of ex_loaded ex_record ex_record_entry ex_env_ok, THEN mp, OF ex_emit_rec_loaded]
  note T2 = emit_flushes_iff_threshold_reached
              [of ex_handler ex_record ex_record_entry ex_env_ok, THEN mp, OF ex_emit_rec]
  have f1: "Flush_called \<in> set (new_calls ex_loaded (snd (emit ex_env_ok ex_record ex_loaded)))"
    using T1 c1 by blast
  have f2: "Flush_called \<notin> set (new_calls ex_handler (snd (emit ex_env_ok ex_record ex_handler)))"
    using T2 c2 by blast
  have f3: "new_calls ex_handler (snd (emit ex_env_ok ex_record ex_handler))
       = [Schedule_flush_called, Timer_started 0]
     \<and> buffer (snd (emit ex_env_ok ex_record ex_handler)) = [ex_record_entry]"
    using T2 c2 by (simp add: ex_handler_def)
  have c2': "\<not> buffer_size ex_handler \<le> int (length (buffer ex_handler @ [ex_record_entry]))"
    by (simp add: ex_handler_def)
  show ?thesis
    using c1 c2' f1 f2 f3 ex_emit_rec_loaded ex_emit_rec by blast
qed



lemma close_timer: "timer (snd (close ev h)) = None"
proof (cases "flush ev h")
  case (Pair r h')
  then have h': "h' = snd (flush ev h)" by simp
  show ?thesis
  proof (cases r)
    case None
    then show ?thesis using Pair by (simp add: close_def split: option.splits)
  next
    case (Some e)
    then have "fst (flush ev h) = Some e" using Pair by simp
    then have "\<not> failure_swallowed ev h"
      by (auto simp: flush_fst failure_swallowed_def split: if_splits)
    then have "timer h' = None" unfolding h' by (simp add: flush_timer)
    then show ?thesis using Pair Some by (simp add: close_def split: option.splits)
  qed
qed



lemma close_config [simp]:
  "buffer_size (snd (close ev h)) = buffer_size h"
  "timed_flush (snd (close ev h)) = timed_flush h"
  "es_index_name (snd (close ev h)) = es_index_name h"
  "index_name_frequency (snd (close ev h)) = index_name_frequency h"
  "es_doc_type (snd (close ev h)) = es_doc_type h"
  "es_additional_fields (snd (close ev h)) = es_additional_fields h"
  "raise_on_indexing_exceptions (snd (close ev h)) = raise_on_indexing_exceptions h"
  "default_timestamp_field_name (snd (close ev h)) = default_timestamp_field_name h"
proof -
  obtain r h' where f: "flush ev h = (r, h')"
    by (cases "flush ev h")
  have h': "h' = snd (flush ev h)"
    using f by simp
  have c: "buffer_size h' = buffer_size h" "timed_flush h' = timed_flush h"
    "es_index_name h' = es_index_name h" "index_name_frequency h' = index_name_frequency h"
    "es_doc_type h' = es_doc_type h" "es_additional_fields h' = es_additional_fields h"
    "raise_on_indexing_exceptions h' = raise_on_indexing_exceptions h"
    "default_timestamp_field_name h' = default_timestamp_field_name h"
    unfolding h' by simp_all
  show "buffer_size (snd (close ev h)) = buffer_size h"
    unfolding close_def f using c by (simp split: option.splits)
  show "timed_flush (snd (close ev h)) = timed_flush h"
    unfolding close_def f using c by (simp split: option.splits)
  show "es_index_name (snd (close ev h)) = es_index_name h"
    unfolding close_def f using c by (simp split: option.splits)
  show "index_name_frequency (snd (close ev h)) = index_name_frequency h"
    unfolding close_def f using c by (simp split: option.splits)
  show "es_doc_type (snd (close ev h)) = es_doc_type h"
    unfolding close_def f using c by (simp split: option.splits)
  show "es_additional_fields (snd (close ev h)) = es_additional_fields h"
    unfolding close_def f using c by (simp split: option.splits)
  show "raise_on_indexing_exceptions (snd (close ev h)) = raise_on_indexing_exceptions h"
    unfolding close_def f using c by (simp split: option.splits)
  show "default_timestamp_field_name (snd (close ev h)) = default_timestamp_field_name h"
    unfolding close_def f using c by (simp split: option.splits)
qed

lemma close_state:
  "live_timers (snd (close ev h)) =
     (if timer h = None then live_timers h else live_timers (snd (flush ev h)))"
  "timers_created (snd (close ev h)) =
     (if timer h = None then timers_created h else timers_created (snd (flush ev h)))"
  "buffer (snd (close ev h)) = (if timer h = None then buffer h else buffer (snd (flush ev h)))"
  by (cases "flush ev h"; auto simp: close_def split: option.splits)+





lemma try_flush_config [simp]:
  "buffer_size (snd (try_flush ev h)) = buffer_size h"
  "timed_flush (snd (try_flush ev h)) = timed_flush h"
  "es_index_name (snd (try_flush ev h)) = es_index_name h"
  "index_name_frequency (snd (try_flush ev h)) = index_name_frequency h"
  "es_doc_type (snd (try_flush ev h)) = es_doc_type h"
  "es_additional_fields (snd (try_flush ev h)) = es_additional_fields h"
  "raise_on_indexing_exceptions (snd (try_flush ev h)) = raise_on_indexing_exceptions h"
  "default_timestamp_field_name (snd (try_flush ev h)) = default_timestamp_field_name h"
  by (simp_all add: try_flush_def)

lemma emit_config [simp]:
  "buffer_size (snd (emit ev r h)) = buffer_size h"
  "timed_flush (snd (emit ev r h)) = timed_flush h"
  "es_index_name (snd (emit ev r h)) = es_index_name h"
  "index_name_frequency (snd (emit ev r h)) = index_name_frequency h"
  "es_doc_type (snd (emit ev r h)) = es_doc_type h"
  "es_additional_fields (snd (emit ev r h)) = es_additional_fields h"
  "raise_on_indexing_exceptions (snd (emit ev r h)) = raise_on_indexing_exceptions h"
  "default_timestamp_field_name (snd (emit ev r h)) = default_timestamp_field_name h"
  by (simp_all add: emit_def split: sum.splits)

lemma fire_config [simp]:
  "buffer_size (fire ev t h) = buffer_size h"
  "timed_flush (fire ev t h) = timed_flush h"
  "es_index_name (fire ev t h) = es_index_name h"
  "index_name_frequency (fire ev t h) = index_name_frequency h"
  "es_doc_type (fire ev t h) = es_doc_type h"
  "es_additional_fields (fire ev t h) = es_additional_fields h"
  "raise_on_indexing_exceptions (fire ev t h) = raise_on_indexing_exceptions h"
  "default_timestamp_field_name (fire ev t h) = default_timestamp_field_name h"
  by (simp_all add: fire_def Let_def)

lemma step_config [simp]:
  "buffer_size (step h x) = buffer_size h"
  "timed_flush (step h x) = timed_flush h"
  "es_index_name (step h x) = es_index_name h"
  "index_name_frequency (step h x) = index_name_frequency h"
  "es_doc_type (step h x) = es_doc_type h"
  "es_additional_fields (step h x) = es_additional_fields h"
  "raise_on_indexing_exceptions (step h x) = raise_on_indexing_exceptions h"
  "default_timestamp_field_name (step h x) = default_timestamp_field_name h"
  by (cases x; simp)+

lemma run_config [simp]:
  "buffer_size (run h xs) = buffer_size h"
  "timed_flush (run h xs) = timed_flush h"
  "es_index_name (run h xs) = es_index_name h"
  "index_name_frequency (run h xs) = index_name_frequency h"
  "es_doc_type (run h xs) = es_doc_type h"
  "es_additional_fields (run h xs) = es_additional_fields h"
  "raise_on_indexing_exceptions (run h xs) = raise_on_indexing_exceptions h"
  "default_timestamp_field_name (run h xs) = default_timestamp_field_name h"
  unfolding run_def by (induction xs arbitrary: h; simp)+

lemma run_Nil [simp]: "run h [] = h"
  by (simp add: run_def)

lemma run_Cons [simp]: "run h (x # xs) = run (step h x) xs"
  by (simp add: run_def)

text \<open>
  C5 fails on the code. \<^verbatim>\<open>close\<close> sets the handle to \<^verbatim>\<open>None\<close> without cancelling
  the timer that its own flush armed after a failed transmission; the next
  \<^verbatim>\<open>emit\<close> finds no handle and arms a second timer: two timers are alive.
\<close>

theorem close_drops_rearmed_timer:
  "live_timers (run ex_default [Emit ex_env_ok ex_record, Close ex_env_down]) = [1]
   \<and> timer (run ex_default [Emit ex_env_ok ex_record, Close ex_env_down]) = None
   \<and> live_timers (run ex_default
        [Emit ex_env_ok ex_record, Close ex_env_down, Emit ex_env_ok ex_record]) = [1, 2]
   \<and> timer (run ex_default
        [Emit ex_env_ok ex_record, Close ex_env_down, Emit ex_env_ok ex_record]) = Some 2"
proof -
  let ?h1 = "snd (emit ex_env_ok ex_record ex_default)"
  let ?h2 = "snd (close ex_env_down ?h1)"
  let ?h3 = "snd (emit ex_env_ok ex_record ?h2)"
  have d: "es_additional_fields ex_default = es_additional_fields ex_handler"
    "default_timestamp_field_name ex_default = default_timestamp_field_name ex_handler"
    "buffer_size ex_default = 1000" "\<not> timed_flush ex_default" "buffer ex_default = []"
    "timer ex_default = None" "live_timers ex_default = []" "timers_created ex_default = 0"
    "index_name_frequency ex_default = DAILY" "\<not> raise_on_indexing_exceptions ex_default"
    by (simp_all add: ex_default_def ex_handler_def)
  have e0: "emit_rec ex_default ex_record = Inr ex_record_entry"
    using emit_rec_cong[of ex_default ex_handler ex_record] d by (simp add: ex_emit_rec)
  have h1: "?h1 = schedule_flush (ex_default\<lparr>buffer := buffer ex_default @ [ex_record_entry]\<rparr>)"
    using emit_appended[OF e0, of ex_env_ok] d by (simp add: try_flush_def)
  have f1: "timer ?h1 = Some 0" "live_timers ?h1 = [0]" "timers_created ?h1 = 1"
    "buffer ?h1 = [ex_record_entry]"
    unfolding h1 using d by (simp_all add: schedule_flush_def Let_def)
  have sw: "failure_swallowed ex_env_down ?h1"
    using d f1 by (simp add: failure_swallowed_def bulk_fst_no_weekly ex_down)
  have f2: "timer ?h2 = None" "live_timers ?h2 = [1]" "timers_created ?h2 = 2"
    "buffer ?h2 = [ex_record_entry]"
    using sw f1 by (simp_all add: close_timer close_state flush_live flush_timers_created
        flush_buffer failure_swallowed_def)
  have e2: "emit_rec ?h2 ex_record = Inr ex_record_entry"
    using emit_rec_cong[of ?h2 ex_handler ex_record] d by (simp add: ex_emit_rec)
  have h3: "?h3 = schedule_flush (?h2\<lparr>buffer := buffer ?h2 @ [ex_record_entry]\<rparr>)"
    using emit_appended[OF e2, of ex_env_ok] d f2 by (simp add: try_flush_def)
  have f3: "timer ?h3 = Some 2" "live_timers ?h3 = [1, 2]"
    unfolding h3 using f2 by (simp_all add: schedule_flush_def Let_def)
  show ?thesis
    using f2 f3 by simp
qed

lemma weekday_range: "0 \<le> weekday dt \<and> weekday dt < 7"
  by (simp add: weekday_def)

text \<open>
  C8. Each of the five index-naming policies is a function of the base name and the
  date of the clock reading alone: two readings on the same day, whatever their time of
  day, give the same index name. The policy \<^verbatim>\<open>NO_FREQ\<close> returns the base name
  unchanged. For every valid date the weekly policy succeeds and its suffix is the date
  \<open>monday\<close>, which is the reading minus its weekday offset, is a Monday, and lies at most
  six days before the reading.
\<close>

theorem index_name_policies:
  "(ordinal now = ordinal now' \<longrightarrow>
      INDEX_FREQUENCY_FUNCION_DICT f name now = INDEX_FREQUENCY_FUNCION_DICT f name now')
   \<and> INDEX_FREQUENCY_FUNCION_DICT NO_FREQ name now = Inr name
   \<and> (1 \<le> ordinal now \<and> ordinal now \<le> max_ordinal \<longrightarrow>
        (let monday = now\<lparr>ordinal := ordinal now - weekday now\<rparr>
         in sub_days now (weekday now) = Inr monday
            \<and> weekday monday = 0
            \<and> ordinal now - 6 \<le> ordinal monday \<and> ordinal monday \<le> ordinal now
            \<and> INDEX_FREQUENCY_FUNCION_DICT WEEKLY name now =
                Inr (name @ ''-'' @ (fmt_Y monday @ ''.'' @ fmt_m monday @ ''.'' @ fmt_d monday))))"
proof (intro conjI impI)
  assume o: "ordinal now = ordinal now'"
  have w: "weekday now = weekday now'"
    using o by (simp add: weekday_def)
  have y: "fmt_Y now = fmt_Y now'" "fmt_m now = fmt_m now'" "fmt_d now = fmt_d now'"
    using o by (simp_all add: fmt_Y_def fmt_m_def fmt_d_def dt_year_def dt_month_def dt_day_def)
  have wk: "get_weekly_index_name name now = get_weekly_index_name name now'"
    using o w
    by (simp add: get_weekly_index_name_def sub_days_def Let_def fmt_Y_def fmt_m_def fmt_d_def
        dt_year_def dt_month_def dt_day_def)
  show "INDEX_FREQUENCY_FUNCION_DICT f name now = INDEX_FREQUENCY_FUNCION_DICT f name now'"
    using y wk
    by (cases f)
       (simp_all add: get_daily_index_name_def get_monthly_index_name_def
          get_yearly_index_name_def)
next
  show "INDEX_FREQUENCY_FUNCION_DICT NO_FREQ name now = Inr name"
    by (simp add: get_unchanged_index_name_def)
next
  assume v: "1 \<le> ordinal now \<and> ordinal now \<le> max_ordinal"
  let ?monday = "now\<lparr>ordinal := ordinal now - weekday now\<rparr>"
  have r: "0 \<le> weekday now" "weekday now < 7"
    using weekday_range[of now] by simp_all
  have lo: "1 \<le> ordinal now - weekday now"
  proof -
    have "(ordinal now + 6) mod 7 \<le> ordinal now - 1"
      using v by presburger
    then show ?thesis by (simp add: weekday_def)
  qed
  have s: "sub_days now (weekday now) = Inr ?monday"
    using lo r v by (simp add: sub_days_def Let_def)
  have m: "weekday ?monday = 0"
  proof -
    have "(ordinal now - (ordinal now + 6) mod 7 + 6) mod 7 = 0"
      by presburger
    then show ?thesis by (simp add: weekday_def)
  qed
  have b: "ordinal now - 6 \<le> ordinal ?monday" "ordinal ?monday \<le> ordinal now"
    using r by simp_all
  have n: "INDEX_FREQUENCY_FUNCION_DICT WEEKLY name now =
      Inr (name @ ''-'' @ (fmt_Y ?monday @ ''.'' @ fmt_m ?monday @ ''.'' @ fmt_d ?monday))"
    using s by (simp add: get_weekly_index_name_def)
  show "let monday = ?monday
        in sub_days now (weekday now) = Inr monday
           \<and> weekday monday = 0
           \<and> ordinal now - 6 \<le> ordinal monday \<and> ordinal monday \<le> ordinal now
           \<and> INDEX_FREQUENCY_FUNCION_DICT WEEKLY name now =
               Inr (name @ ''-'' @ (fmt_Y monday @ ''.'' @ fmt_m monday @ ''.'' @ fmt_d monday))"
    unfolding Let_def using s m b n by blast
qed

lemma ex_ymd: "ord2ymd 738838 = (2023, 11, 14)" "ord2ymd 738837 = (2023, 11, 13)"
  by code_simp+

lemma ex_str_nat: "str_nat 2023 = ''2023''" "str_nat 11 = ''11''" "str_nat 13 = ''13''"
    "str_nat 14 = ''14''"
  by code_simp+

theorem index_name_policies_witness:
  "ordinal ex_now = ordinal (ex_now\<lparr>hour := 3\<rparr>)
   \<and> INDEX_FREQUENCY_FUNCION_DICT DAILY ''idx'' ex_now
       = INDEX_FREQUENCY_FUNCION_DICT DAILY ''idx'' (ex_now\<lparr>hour := 3\<rparr>)
   \<and> 1 \<le> ordinal ex_now \<and> ordinal ex_now \<le> max_ordinal
   \<and> weekday ex_now = 1
   \<and> weekday (ex_now\<lparr>ordinal := 738837\<rparr>) = 0
   \<and> INDEX_FREQUENCY_FUNCION_DICT WEEKLY ''idx'' ex_now = Inr ''idx-2023.11.13''
   \<and> INDEX_FREQUENCY_FUNCION_DICT DAILY ''idx'' ex_now = Inr ''idx-2023.11.14''"
proof -
  have w: "weekday ex_now = 1"
    by (simp add: weekday_def ex_now_def)
  have v: "1 \<le> ordinal ex_now \<and> ordinal ex_now \<le> max_ordinal"
    by (simp add: ex_now_def max_ordinal_def)
  have o: "ordinal ex_now = ordinal (ex_now\<lparr>hour := 3\<rparr>)"
    by simp
  note T = index_name_policies [of ex_now "ex_now\<lparr>hour := 3\<rparr>" DAILY "''idx''"]
  have d: "INDEX_FREQUENCY_FUNCION_DICT DAILY ''idx'' ex_now
       = INDEX_FREQUENCY_FUNCION_DICT DAILY ''idx'' (ex_now\<lparr>hour := 3\<rparr>)"
    using T o by blast
  have m: "ex_now\<lparr>ordinal := ordinal ex_now - weekday ex_now\<rparr> = ex_now\<lparr>ordinal := 738837\<rparr>"
    unfolding w by (simp add: ex_now_def)
  have k: "weekday (ex_now\<lparr>ordinal := 738837\<rparr>) = 0
     \<and> INDEX_FREQUENCY_FUNCION_DICT WEEKLY ''idx'' ex_now =
         Inr (''idx'' @ ''-'' @ (fmt_Y (ex_now\<lparr>ordinal := 738837\<rparr>) @ ''.''
              @ fmt_m (ex_now\<lparr>ordinal := 738837\<rparr>) @ ''.'' @ fmt_d (ex_now\<lparr>ordinal := 738837\<rparr>)))"
    using T[THEN conjunct2, THEN conjunct2, THEN mp, OF v, unfolded Let_def m] by blast
  have f: "fmt_Y (ex_now\<lparr>ordinal := 738837\<rparr>) = ''2023''" "fmt_m (ex_now\<lparr>ordinal := 738837\<rparr>) = ''11''"
      "fmt_d (ex_now\<lparr>ordinal := 738837\<rparr>) = ''13''"
      "fmt_Y ex_now = ''2023''" "fmt_m ex_now = ''11''" "fmt_d ex_now = ''14''"
    by (simp_all add: fmt_Y_def fmt_m_def fmt_d_def dt_year_def dt_month_def dt_day_def
          ex_now_def ex_ymd ex_str_nat zfill_def)
  have dn: "INDEX_FREQUENCY_FUNCION_DICT DAILY ''idx'' ex_now = Inr ''idx-2023.11.14''"
    by (simp add: get_daily_index_name_def f)
  have wk: "INDEX_FREQUENCY_FUNCION_DICT WEEKLY ''idx'' ex_now = Inr ''idx-2023.11.13''"
    using k by (simp add: f)
  show ?thesis
    using w v o d k wk dn by blast
qed


















lemma py_iter_Inl: "py_iter v = Inl e \<Longrightarrow> e = TypeError"
  by (cases v rule: py_iter.cases) simp_all

lemma copy_attr_Inl: "copy_attr rec kv = Inl e \<Longrightarrow> e = TypeError"
  by (auto simp: copy_attr_def Let_def split: if_splits sum.splits dest: py_iter_Inl)

lemma copy_attr_args_None: "copy_attr rec (''args'', Atom ANone) = Inl TypeError"
  by (simp add: copy_attr_def LOGGING_FILTER_FIELDS_def)

lemma copy_attrs_args_None:
  "(''args'', Atom ANone) \<in> set kvs \<Longrightarrow> copy_attrs rec kvs = Inl TypeError"
proof (induction kvs arbitrary: rec)
  case Nil
  then show ?case by simp
next
  case (Cons kv kvs)
  show ?case
  proof (cases "copy_attr rec kv")
    case (Inl e)
    then show ?thesis
      using copy_attr_Inl[OF Inl] by simp
  next
    case (Inr rec')
    then have "kv \<noteq> (''args'', Atom ANone)"
      using copy_attr_args_None[of rec] by auto
    then have "(''args'', Atom ANone) \<in> set kvs"
      using Cons.prems by simp
    then show ?thesis
      using Inr Cons.IH by simp
  qed
qed

text \<open>
  What a finished loop leaves under each key, for attributes with distinct names (they come
  from a dictionary): a name on the deny-list or not among the attributes keeps what the
  additional fields gave it; \<^verbatim>\<open>args\<close> holds the tuple of the strings of its elements;
  every other attribute holds its value, the empty string for \<^verbatim>\<open>None\<close>.
\<close>

lemma copy_attrs_contents:
  assumes "copy_attrs rec0 kvs = Inr rec" "distinct (map fst kvs)"
  shows "map_of rec k =
    (case map_of kvs k of
       None \<Rightarrow> map_of rec0 k
     | Some v \<Rightarrow>
         if k \<in> set LOGGING_FILTER_FIELDS then map_of rec0 k
         else if k = ''args''
         then (case py_iter v of
                 Inl e \<Rightarrow> None
               | Inr xs \<Rightarrow> Some (Tuple (map (\<lambda>arg. AStr (py_str arg)) xs)))
         else Some (if v = Atom ANone then Atom (AStr []) else v))"
  using assms
proof (induction kvs arbitrary: rec0)
  case Nil
  then show ?case by simp
next
  case (Cons kv kvs)
  obtain key val where kv: "kv = (key, val)"
    by (cases kv)
  obtain rec1 where c1: "copy_attr rec0 kv = Inr rec1" and c2: "copy_attrs rec1 kvs = Inr rec"
    using Cons.prems(1) by (cases "copy_attr rec0 kv") simp_all
  have d: "distinct (map fst kvs)" and n: "map_of kvs key = None"
    using Cons.prems(2) kv by (simp_all add: map_of_eq_None_iff)
  note IH = Cons.IH[OF c2 d]
  show ?case
  proof (cases "k = key")
    case True
    have "map_of rec key = map_of rec1 key"
      using IH n True by simp
    moreover have "map_of rec1 key =
        (if key \<in> set LOGGING_FILTER_FIELDS then map_of rec0 key
         else if key = ''args''
         then (case py_iter val of
                 Inl e \<Rightarrow> None
               | Inr xs \<Rightarrow> Some (Tuple (map (\<lambda>arg. AStr (py_str arg)) xs)))
         else Some (if val = Atom ANone then Atom (AStr []) else val))"
      using c1 unfolding kv
      by (auto simp: copy_attr_def Let_def update_conv' split: if_splits sum.splits)
    ultimately show ?thesis
      using True kv by simp
  next
    case False
    have "map_of rec1 k = map_of rec0 k"
      using c1 False unfolding kv
      by (auto simp: copy_attr_def Let_def update_conv' split: if_splits sum.splits)
    then show ?thesis
      using IH[of] False kv by (simp split: option.splits)
  qed
qed

lemma emit_rec_contents:
  assumes "emit_rec h r = Inr rec" "distinct (map fst (attrs r))"
    "k \<noteq> default_timestamp_field_name h"
  shows "map_of rec k =
    (case map_of (attrs r) k of
       None \<Rightarrow> map_of (es_additional_fields h) k
     | Some v \<Rightarrow>
         if k \<in> set LOGGING_FILTER_FIELDS then map_of (es_additional_fields h) k
         else if k = ''args''
         then (case py_iter v of
                 Inl e \<Rightarrow> None
               | Inr xs \<Rightarrow> Some (Tuple (map (\<lambda>arg. AStr (py_str arg)) xs)))
         else Some (if v = Atom ANone then Atom (AStr []) else v))"
proof -
  obtain rec0 s where c: "copy_attrs (es_additional_fields h) (attrs r) = Inr rec0"
    and rec: "rec = AList.update (default_timestamp_field_name h) (Atom (AStr s)) rec0"
    using assms(1) by (auto simp: emit_rec_def split: sum.splits)
  have "map_of rec k = map_of rec0 k"
    unfolding rec using assms(3) by (simp add: update_conv')
  then show ?thesis
    using copy_attrs_contents[OF c assms(2), of k] by simp
qed

text \<open>
  C6 fails on the code. The loop of \<^verbatim>\<open>emit\<close> iterates over \<^verbatim>\<open>args\<close> before it
  replaces \<^verbatim>\<open>None\<close> by the empty string, so a record whose \<^verbatim>\<open>args\<close> is \<^verbatim>\<open>None\<close>
  yields no entry at all: \<^verbatim>\<open>emit\<close> raises \<^verbatim>\<open>TypeError\<close>, in every configuration and
  whatever else the record holds, and the handler is left as it was.
\<close>

theorem emit_raises_on_args_None:
  "(''args'', Atom ANone) \<in> set (attrs r) \<longrightarrow>
     emit_rec h r = Inl TypeError \<and> emit ev r h = (Some TypeError, h)"
proof
  assume "(''args'', Atom ANone) \<in> set (attrs r)"
  then have "copy_attrs (es_additional_fields h) (attrs r) = Inl TypeError"
    by (rule copy_attrs_args_None)
  then have e: "emit_rec h r = Inl TypeError"
    by (simp add: emit_rec_def)
  then have "emit ev r h = (Some TypeError, h)"
    by (simp add: emit_def)
  with e show "emit_rec h r = Inl TypeError \<and> emit ev r h = (Some TypeError, h)"
    by simp
qed

theorem emit_raises_on_args_None_witness:
  "(''args'', Atom ANone) \<in> set (attrs ex_record_no_args)
   \<and> emit_rec ex_handler ex_record_no_args = Inl TypeError
   \<and> emit ex_env_ok ex_record_no_args ex_handler = (Some TypeError, ex_handler)"
proof -
  have a: "(''args'', Atom ANone) \<in> set (attrs ex_record_no_args)"
    by (simp add: ex_record_no_args_def)
  show ?thesis
    using emit_raises_on_args_None [of ex_record_no_args ex_handler ex_env_ok] a by blast
qed

lemma copy_attr_keys:
  assumes "copy_attr rec kv = Inr rec'"
  shows "fst ` set rec \<subseteq> fst ` set rec'"
proof -
  have "rec' = rec \<or> (\<exists>v. rec' = AList.update (fst kv) v rec)"
    using assms by (auto simp: copy_attr_def Let_def split: if_splits sum.splits)
  then show ?thesis
  proof
    assume "rec' = rec"
    then show ?thesis by simp
  next
    assume "\<exists>v. rec' = AList.update (fst kv) v rec"
    then obtain v where "rec' = AList.update (fst kv) v rec"
      by blast
    then have "fst ` set rec' = {fst kv} \<union> fst ` set rec"
      by (simp add: dom_update)
    then show ?thesis by blast
  qed
qed

lemma copy_attrs_keys: "copy_attrs rec kvs = Inr rec' \<Longrightarrow> fst ` set rec \<subseteq> fst ` set rec'"
proof (induction kvs arbitrary: rec)
  case Nil
  then show ?case by simp
next
  case (Cons kv kvs)
  obtain rec1 where c1: "copy_attr rec kv = Inr rec1" and c2: "copy_attrs rec1 kvs = Inr rec'"
    using Cons.prems by (cases "copy_attr rec kv") simp_all
  show ?case
    using copy_attr_keys[OF c1] Cons.IH[OF c2] by blast
qed

lemma emit_rec_keys:
  assumes "emit_rec h r = Inr rec"
  shows "fst ` set (es_additional_fields h) \<subseteq> fst ` set rec"
proof -
  obtain rec0 s where c: "copy_attrs (es_additional_fields h) (attrs r) = Inr rec0"
    and rec: "rec = AList.update (default_timestamp_field_name h) (Atom (AStr s)) rec0"
    using assms by (auto simp: emit_rec_def split: sum.splits)
  have "fst ` set rec = {default_timestamp_field_name h} \<union> fst ` set rec0"
    unfolding rec by (simp add: dom_update)
  then have "fst ` set rec0 \<subseteq> fst ` set rec"
    by blast
  then show ?thesis
    using copy_attrs_keys[OF c] by blast
qed

lemma emit_rec_run: "emit_rec (run h evs) r = emit_rec h r"
  by (rule emit_rec_cong) simp_all

lemma init_store:
  "fst (init ie st args) =
     st @ [case snd (init ie st args) of
             Inl err \<Rightarrow> (case p_es_additional_fields args of None \<Rightarrow> [] | Some p \<Rightarrow> st ! p)
           | Inr (a, h) \<Rightarrow> es_additional_fields h]"
  by (simp add: init_def dict_new_def dict_copy_def dict_update_def Let_def
      split: option.splits sum.splits)

lemma init_fields:
  assumes "snd (init ie st args) = Inr (a, h)"
  shows "a = length st"
    and "\<exists>host_ip. resolve_host_ip ie (gethostname ie) = Inr host_ip
          \<and> es_additional_fields h =
              AList.update ''host_ip'' (Atom (AStr host_ip))
                (AList.update ''host'' (Atom (AStr (gethostname ie)))
                   (case p_es_additional_fields args of None \<Rightarrow> [] | Some p \<Rightarrow> st ! p))"
  using assms
  by (auto simp: init_def dict_new_def dict_copy_def dict_update_def Let_def
      split: option.splits sum.splits)

text \<open>
  C10. The constructor leaves every dictionary that existed before it as it was, whether
  it returns or raises: the handler's dictionary is a new object, the copy of the caller's
  (or an empty one) with \<^verbatim>\<open>host\<close> and \<^verbatim>\<open>host_ip\<close> set, and all the other keys as the
  caller gave them. After any run of operations on the handler, every entry that
  \<^verbatim>\<open>emit\<close> builds has the keys \<^verbatim>\<open>host\<close> and \<^verbatim>\<open>host_ip\<close>.
\<close>

theorem init_copies_additional_fields:
  "(\<forall>p<length st. fst (init ie st args) ! p = st ! p)
   \<and> (\<forall>a h. snd (init ie st args) = Inr (a, h) \<longrightarrow>
         a = length st
       \<and> length (fst (init ie st args)) = Suc (length st)
       \<and> fst (init ie st args) ! a = es_additional_fields h
       \<and> map_of (es_additional_fields h) ''host'' = Some (Atom (AStr (gethostname ie)))
       \<and> (\<exists>host_ip. resolve_host_ip ie (gethostname ie) = Inr host_ip
            \<and> map_of (es_additional_fields h) ''host_ip'' = Some (Atom (AStr host_ip)))
       \<and> (\<forall>k. k \<noteq> ''host'' \<and> k \<noteq> ''host_ip'' \<longrightarrow>
            map_of (es_additional_fields h) k =
              (case p_es_additional_fields args of
                 None \<Rightarrow> None
               | Some p \<Rightarrow> map_of (st ! p) k))
       \<and> (\<forall>evs r rec. emit_rec (run h evs) r = Inr rec \<longrightarrow>
            ''host'' \<in> fst ` set rec \<and> ''host_ip'' \<in> fst ` set rec))"
proof (intro conjI allI impI)
  fix p
  assume "p < length st"
  then show "fst (init ie st args) ! p = st ! p"
    by (subst init_store) (simp add: nth_append)
next
  fix a h
  assume i: "snd (init ie st args) = Inr (a, h)"
  show a: "a = length st"
    using init_fields(1)[OF i] .
  show "length (fst (init ie st args)) = Suc (length st)"
    by (subst init_store) simp
  show "fst (init ie st args) ! a = es_additional_fields h"
    unfolding a by (subst init_store) (simp add: i)
  obtain host_ip where r: "resolve_host_ip ie (gethostname ie) = Inr host_ip"
    and f: "es_additional_fields h =
              AList.update ''host_ip'' (Atom (AStr host_ip))
                (AList.update ''host'' (Atom (AStr (gethostname ie)))
                   (case p_es_additional_fields args of None \<Rightarrow> [] | Some p \<Rightarrow> st ! p))"
    using init_fields(2)[OF i] by blast
  show "map_of (es_additional_fields h) ''host'' = Some (Atom (AStr (gethostname ie)))"
    unfolding f by (simp add: update_conv')
  have "map_of (es_additional_fields h) ''host_ip'' = Some (Atom (AStr host_ip))"
    unfolding f by (simp add: update_conv')
  then show "\<exists>host_ip. resolve_host_ip ie (gethostname ie) = Inr host_ip
            \<and> map_of (es_additional_fields h) ''host_ip'' = Some (Atom (AStr host_ip))"
    using r by blast
  have k: "''host'' \<in> fst ` set (es_additional_fields h)"
    "''host_ip'' \<in> fst ` set (es_additional_fields h)"
    unfolding f by (simp_all add: dom_update)
  {
    fix evs r rec
    assume "emit_rec (run h evs) r = Inr rec"
    then have "emit_rec h r = Inr rec"
      by (simp add: emit_rec_run)
    then have "fst ` set (es_additional_fields h) \<subseteq> fst ` set rec"
      by (rule emit_rec_keys)
    then show "''host'' \<in> fst ` set rec" "''host_ip'' \<in> fst ` set rec"
      using k by blast+
  }
  {
    fix k
    assume "k \<noteq> ''host'' \<and> k \<noteq> ''host_ip''"
    then show "map_of (es_additional_fields h) k =
              (case p_es_additional_fields args of
                 None \<Rightarrow> None
               | Some p \<Rightarrow> map_of (st ! p) k)"
      unfolding f by (simp add: update_conv' split: option.splits)
  }
qed

lemma ex_init:
  "init ex_init_env ex_store ex_init_args
     = ([[(''App'', Atom (AStr ''Test''))], es_additional_fields ex_handler], Inr (1, ex_handler))"
  by (simp add: init_def ex_init_env_def ex_store_def ex_init_args_def default_args_def
      dict_copy_def dict_update_def resolve_host_ip_def ex_handler_def)

theorem init_copies_additional_fields_witness:
  "snd (init ex_init_env ex_store ex_init_args) = Inr (1, ex_handler)
   \<and> fst (init ex_init_env ex_store ex_init_args) ! 0 = ex_store ! 0
   \<and> fst (init ex_init_env ex_store ex_init_args) ! 1 = es_additional_fields ex_handler
   \<and> map_of (es_additional_fields ex_handler) ''App'' = map_of (ex_store ! 0) ''App''
   \<and> emit_rec (run ex_handler []) ex_record = Inr ex_record_entry
   \<and> ''host'' \<in> fst ` set ex_record_entry \<and> ''host_ip'' \<in> fst ` set ex_record_entry"
proof -
  note T = init_copies_additional_fields [of ex_store ex_init_env ex_init_args]
  have i: "snd (init ex_init_env ex_store ex_init_args) = Inr (1, ex_handler)"
    by (simp add: ex_init)
  have l: "(0::nat) < length ex_store"
    by (simp add: ex_store_def)
  have p: "p_es_additional_fields ex_init_args = Some 0"
    by (simp add: ex_init_args_def)
  have e: "emit_rec (run ex_handler []) ex_record = Inr ex_record_entry"
    by (simp add: ex_emit_rec)
  have n: "''App'' \<noteq> ''host'' \<and> ''App'' \<noteq> ''host_ip''"
    by simp
  have c1: "fst (init ex_init_env ex_store ex_init_args) ! 0 = ex_store ! 0"
    using T[THEN conjunct1, rule_format, OF l] .
  note H = T[THEN conjunct2, rule_format, OF i]
  have c2: "fst (init ex_init_env ex_store ex_init_args) ! 1 = es_additional_fields ex_handler"
    using H[THEN conjunct2, THEN conjunct2, THEN conjunct1] .
  have "map_of (es_additional_fields ex_handler) ''App'' =
      (case p_es_additional_fields ex_init_args of
         None \<Rightarrow> None
       | Some p \<Rightarrow> map_of (ex_store ! p) ''App'')"
    using H[THEN conjunct2, THEN conjunct2, THEN conjunct2, THEN conjunct2, THEN conjunct2,
        THEN conjunct1, rule_format, OF n] .
  then have c3: "map_of (es_additional_fields ex_handler) ''App'' = map_of (ex_store ! 0) ''App''"
    unfolding p by simp
  have c4: "''host'' \<in> fst ` set ex_record_entry \<and> ''host_ip'' \<in> fst ` set ex_record_entry"
    using H[THEN conjunct2, THEN conjunct2, THEN conjunct2, THEN conjunct2, THEN conjunct2,
        THEN conjunct2, rule_format, OF e] .
  show ?thesis
    using i c1 c2 c3 c4 e by simp
qed

end
